theory Spec2Isabelle
  imports Complex_Main
begin

section \<open>Strings\<close>

text \<open>
  The TypeScript sources compare answers after \<^verbatim>\<open>toLowerCase()\<close> and \<^verbatim>\<open>trim()\<close>.
  A string is a list of code units, and a \<^typ>\<open>char\<close> is read as the code unit of that
  number, so the strings modelled are those of the characters U+0000 to U+00FF.
  On these, \<open>toLowerCase\<close> maps \<open>A\<close>..\<open>Z\<close> to \<open>a\<close>..\<open>z\<close> and the capital letters
  U+00C0..U+00DE (all but the multiplication sign U+00D7) to the letters 32 places on,
  and leaves every other character alone; \<open>trim\<close> removes from both ends the white space
  and line terminators of the language in that range: TAB, LF, VT, FF, CR, SPACE and the
  no-break space U+00A0.
\<close>

definition upperCaseLetters :: string where
  "upperCaseLetters =
     ''ABCDEFGHIJKLMNOPQRSTUVWXYZ'' @
     [CHR 0xC0, CHR 0xC1, CHR 0xC2, CHR 0xC3, CHR 0xC4, CHR 0xC5, CHR 0xC6, CHR 0xC7,
      CHR 0xC8, CHR 0xC9, CHR 0xCA, CHR 0xCB, CHR 0xCC, CHR 0xCD, CHR 0xCE, CHR 0xCF,
      CHR 0xD0, CHR 0xD1, CHR 0xD2, CHR 0xD3, CHR 0xD4, CHR 0xD5, CHR 0xD6, CHR 0xD8,
      CHR 0xD9, CHR 0xDA, CHR 0xDB, CHR 0xDC, CHR 0xDD, CHR 0xDE]"

definition lowerCaseLetters :: string where
  "lowerCaseLetters =
     ''abcdefghijklmnopqrstuvwxyz'' @
     [CHR 0xE0, CHR 0xE1, CHR 0xE2, CHR 0xE3, CHR 0xE4, CHR 0xE5, CHR 0xE6, CHR 0xE7,
      CHR 0xE8, CHR 0xE9, CHR 0xEA, CHR 0xEB, CHR 0xEC, CHR 0xED, CHR 0xEE, CHR 0xEF,
      CHR 0xF0, CHR 0xF1, CHR 0xF2, CHR 0xF3, CHR 0xF4, CHR 0xF5, CHR 0xF6, CHR 0xF8,
      CHR 0xF9, CHR 0xFA, CHR 0xFB, CHR 0xFC, CHR 0xFD, CHR 0xFE]"

definition toLowerChar :: "char \<Rightarrow> char" where
  "toLowerChar c =
     (case map_of (zip upperCaseLetters lowerCaseLetters) c of
        Some d \<Rightarrow> d
      | None \<Rightarrow> c)"

definition toLowerCase :: "string \<Rightarrow> string" where
  "toLowerCase s = map toLowerChar s"

definition isWhiteSpace :: "char \<Rightarrow> bool" where
  "isWhiteSpace c =
     (c \<in> set [CHR 0x09, CHR 0x0A, CHR 0x0B, CHR 0x0C, CHR 0x0D, CHR '' '', CHR 0xA0])"

definition trim :: "string \<Rightarrow> string" where
  "trim s = rev (dropWhile isWhiteSpace (rev (dropWhile isWhiteSpace s)))"

section \<open>JavaScript numbers\<close>

text \<open>
  A JavaScript number is an IEEE 754 binary64 value. The numbers computed here are
  quotients and products of small integers, far from overflow and from the subnormal
  range, so a number is modelled by the rational it denotes, and every arithmetic
  operation rounds its exact result to the nearest value with a 53-bit significand,
  ties to the even significand (\<open>toDouble\<close>). \<open>bitLength k\<close> is the number of binary
  digits of a positive integer, \<open>ilog2 x\<close> the binary exponent \<open>\<lfloor>log\<^sub>2 x\<rfloor>\<close> of a
  positive \<open>x\<close>.
\<close>

function bitLength :: "int \<Rightarrow> nat" where
  "bitLength k = (if k \<le> 0 then 0 else Suc (bitLength (k div 2)))"
  by pat_completeness auto
termination
  by (relation "measure nat") auto

definition pow2 :: "int \<Rightarrow> rat" where
  "pow2 k = (if 0 \<le> k then 2 ^ nat k else 1 / 2 ^ nat (- k))"

definition ilog2 :: "rat \<Rightarrow> int" where
  "ilog2 x =
     (let (p, q) = quotient_of x;
          d = int (bitLength p) - int (bitLength q)
      in if pow2 d \<le> x then d else d - 1)"

definition roundHalfEven :: "rat \<Rightarrow> int" where
  "roundHalfEven y =
     (let f = \<lfloor>y\<rfloor>; r = y - of_int f
      in if r < 1 / 2 then f else if 1 / 2 < r then f + 1 else if even f then f else f + 1)"

definition toDouble :: "rat \<Rightarrow> rat" where
  "toDouble x =
     (if x = 0 then 0
      else (let u = pow2 (ilog2 \<bar>x\<bar> - 52) in of_int (roundHalfEven (x / u)) * u))"

text \<open>\<^verbatim>\<open>a / b\<close> for \<open>b \<noteq> 0\<close>, and \<^verbatim>\<open>a * b\<close>.\<close>

definition js_div :: "rat \<Rightarrow> rat \<Rightarrow> rat" where
  "js_div a b = toDouble (a / b)"

definition js_mul :: "rat \<Rightarrow> rat \<Rightarrow> rat" where
  "js_mul a b = toDouble (a * b)"

text \<open>
  \<^verbatim>\<open>Math.round\<close>: the integer closest to the argument, the larger one on a tie. It is
  exact on every binary64 value.
\<close>

definition Math_round :: "rat \<Rightarrow> int" where
  "Math_round x = \<lfloor>x + 1 / 2\<rfloor>"

section \<open>Quiz questions and scoring (StudyChat.tsx)\<close>

datatype questionType = mcq | true_false | fill_blank | short_answer

text \<open>
  \<^verbatim>\<open>interface QuizQuestion\<close>. The field \<^verbatim>\<open>options?: string[]\<close> is optional, so it is an
  option: \<open>None\<close> is a question without the field, \<open>Some []\<close> an empty array (which
  JavaScript treats as a true value).
\<close>

record QuizQuestion =
  qid :: int
  qtype :: questionType
  question :: string
  options :: "string list option"
  correct_answer :: string
  explanation :: string
  difficulty :: string
  topic :: string

text \<open>\<^verbatim>\<open>xs[i]\<close>: reading past the end of a JavaScript array gives \<^verbatim>\<open>undefined\<close> (\<open>None\<close>).\<close>

fun elemAt :: "'a list \<Rightarrow> nat \<Rightarrow> 'a option" where
  "elemAt [] i = None"
| "elemAt (x # xs) 0 = Some x"
| "elemAt (x # xs) (Suc i) = elemAt xs i"

text \<open>
  \<^verbatim>\<open>Array.prototype.indexOf\<close>: the first index holding the element, \<open>-1\<close> when there is
  none. The searched value may be \<^verbatim>\<open>undefined\<close>, which no string of the array equals.
\<close>

fun indexOf :: "'a list \<Rightarrow> 'a \<Rightarrow> int" where
  "indexOf [] x = - 1"
| "indexOf (y # ys) x =
     (if y = x then 0 else (let r = indexOf ys x in if r < 0 then - 1 else r + 1))"

definition indexOf_undef :: "'a list \<Rightarrow> 'a option \<Rightarrow> int" where
  "indexOf_undef xs v = (case v of None \<Rightarrow> - 1 | Some x \<Rightarrow> indexOf xs x)"

text \<open>
  The test of the \<^verbatim>\<open>forEach\<close> body of \<^verbatim>\<open>calculateQuizResults\<close>, for the question \<open>q\<close> and
  the entry \<^verbatim>\<open>userAnswers[i]\<close>:
  \<^verbatim>\<open>userAnswer === correctAnswer || (q.options && q.options.indexOf(userAnswers[i]) ===
  q.options.map(o => o.toLowerCase()).indexOf(correctAnswer))\<close>.
\<close>

definition isCorrect :: "QuizQuestion \<Rightarrow> string option \<Rightarrow> bool" where
  "isCorrect q ua =
     (let userAnswer = map_option (\<lambda>a. trim (toLowerCase a)) ua;
          correctAnswer = trim (toLowerCase (correct_answer q))
      in userAnswer = Some correctAnswer \<or>
         (case options q of
            None \<Rightarrow> False
          | Some os \<Rightarrow> indexOf_undef os ua = indexOf (map toLowerCase os) correctAnswer))"

text \<open>The \<^verbatim>\<open>forEach\<close> loop: \<open>i\<close> is the index of the head question, \<open>c\<close> the running count.\<close>

fun forEach_count :: "QuizQuestion list \<Rightarrow> string list \<Rightarrow> nat \<Rightarrow> nat \<Rightarrow> nat" where
  "forEach_count [] userAnswers i c = c"
| "forEach_count (q # qs) userAnswers i c =
     forEach_count qs userAnswers (Suc i) (if isCorrect q (elemAt userAnswers i) then c + 1 else c)"

definition countCorrect :: "QuizQuestion list \<Rightarrow> string list \<Rightarrow> nat" where
  "countCorrect quizQuestions userAnswers = forEach_count quizQuestions userAnswers 0 0"

text \<open>
  \<^verbatim>\<open>Math.round((correctCount / quizQuestions.length) * 100)\<close>. With no question the
  quotient is \<^verbatim>\<open>0 / 0\<close>, which is \<^verbatim>\<open>NaN\<close>, and so is the result: \<open>None\<close>.
\<close>

definition accuracyOf :: "nat \<Rightarrow> nat \<Rightarrow> int option" where
  "accuracyOf correctCount len =
     (if len = 0 then None
      else Some (Math_round (js_mul (js_div (of_nat correctCount) (of_nat len)) 100)))"

datatype understanding = strong | partial | weak

text \<open>\<^verbatim>\<open>accuracy >= k\<close>: every comparison with \<^verbatim>\<open>NaN\<close> is false.\<close>

definition js_ge :: "int option \<Rightarrow> int \<Rightarrow> bool" where
  "js_ge a k = (case a of None \<Rightarrow> False | Some x \<Rightarrow> k \<le> x)"

definition understandingOf :: "int option \<Rightarrow> understanding" where
  "understandingOf accuracy =
     (if js_ge accuracy 70 then strong
      else if js_ge accuracy 40 then partial
      else weak)"

record quizResult =
  correctCount :: nat
  totalQuestions :: nat
  accuracy :: "int option"
  understanding :: understanding
  questions :: "QuizQuestion list"
  answers :: "string list"

text \<open>The \<^verbatim>\<open>quizResult\<close> object that \<^verbatim>\<open>calculateQuizResults\<close> hands to \<^verbatim>\<open>onEndStudy\<close>.\<close>

definition calculateQuizResults :: "QuizQuestion list \<Rightarrow> string list \<Rightarrow> quizResult" where
  "calculateQuizResults quizQuestions userAnswers =
     (let c = countCorrect quizQuestions userAnswers;
          a = accuracyOf c (length quizQuestions)
      in \<lparr>correctCount = c,
          totalQuestions = length quizQuestions,
          accuracy = a,
          understanding = understandingOf a,
          questions = quizQuestions,
          answers = userAnswers\<rparr>)"

section \<open>Session analysis (StudyChat.tsx, getAIResponse)\<close>

text \<open>
  \<^verbatim>\<open>currentUnderstanding: "weak" | "average" | "good" | "excellent"\<close>; the constructors
  are capitalised to keep them apart from the quiz verdict.
\<close>

datatype level = Weak | Average | Good | Excellent

record RealTimeAnalysis =
  weakAreas :: "string list"
  strongAreas :: "string list"
  currentUnderstanding :: level
  topicsCovered :: "string list"

text \<open>
  \<^verbatim>\<open>data.sessionAnalysis\<close> as the edge function reports it. Every field may be missing;
  a reported understanding is one of the four literals, all of them true values.
\<close>

record SessionAnalysis =
  sa_weakAreas :: "string list option"
  sa_strongAreas :: "string list option"
  sa_understanding :: "level option"
  sa_topics :: "string list option"

text \<open>
  \<^verbatim>\<open>[...new Set(xs)]\<close>: a \<^verbatim>\<open>Set\<close> keeps its elements in insertion order and ignores
  an element it already holds.
\<close>

definition spreadSet :: "'a list \<Rightarrow> 'a list" where
  "spreadSet xs = foldl (\<lambda>s x. if x \<in> set s then s else s @ [x]) [] xs"

text \<open>\<^verbatim>\<open>v || []\<close>\<close>

definition orEmpty :: "'a list option \<Rightarrow> 'a list" where
  "orEmpty v = (case v of None \<Rightarrow> [] | Some xs \<Rightarrow> xs)"

text \<open>The updater passed to \<^verbatim>\<open>setAnalysis\<close>.\<close>

definition mergeAnalysis :: "SessionAnalysis \<Rightarrow> RealTimeAnalysis \<Rightarrow> RealTimeAnalysis" where
  "mergeAnalysis sa prev =
     \<lparr>weakAreas = spreadSet (weakAreas prev @ orEmpty (sa_weakAreas sa)),
      strongAreas = spreadSet (strongAreas prev @ orEmpty (sa_strongAreas sa)),
      currentUnderstanding =
        (case sa_understanding sa of Some u \<Rightarrow> u | None \<Rightarrow> currentUnderstanding prev),
      topicsCovered = spreadSet (topicsCovered prev @ orEmpty (sa_topics sa))\<rparr>"

text \<open>
  The outcome of invoking the \<^verbatim>\<open>study-chat\<close> function: an error (thrown and caught), or
  the data, whose \<^verbatim>\<open>sessionAnalysis\<close> may be missing. \<open>getAIResponse\<close> is the effect of
  one assistant turn on the analysis state.
\<close>

datatype chatResponse = ChatError | ChatData "SessionAnalysis option"

definition getAIResponse :: "chatResponse \<Rightarrow> RealTimeAnalysis \<Rightarrow> RealTimeAnalysis" where
  "getAIResponse r prev =
     (case r of
        ChatError \<Rightarrow> prev
      | ChatData None \<Rightarrow> prev
      | ChatData (Some sa) \<Rightarrow> mergeAnalysis sa prev)"

definition assistantTurns :: "chatResponse list \<Rightarrow> RealTimeAnalysis \<Rightarrow> RealTimeAnalysis" where
  "assistantTurns rs a = foldl (\<lambda>prev r. getAIResponse r prev) a rs"

definition initialAnalysis :: RealTimeAnalysis where
  "initialAnalysis =
     \<lparr>weakAreas = [], strongAreas = [], currentUnderstanding = Average, topicsCovered = []\<rparr>"

section \<open>Quiz mode (StudyChat.tsx)\<close>

text \<open>
  A chat message is represented by what its text is built from; the rendered text, the
  identifier and the time stamp play no role in what follows.
\<close>

datatype ChatMessage =
    Greeting
  | UserMessage string
  | AssistantMessage string
  | QuizIntro nat
  | ResultMessage nat nat understanding

text \<open>The argument of \<^verbatim>\<open>onEndStudy\<close>; \<open>quizResult = None\<close> is an object without that field.\<close>

record summary =
  summary_topic :: string
  timeSpent :: int
  summary_messages :: "ChatMessage list"
  summary_analysis :: RealTimeAnalysis
  quizResult :: "quizResult option"

record state =
  messages :: "ChatMessage list"
  currentTopic :: string
  isQuizMode :: bool
  quizQuestions :: "QuizQuestion list"
  currentQuestionIndex :: nat
  userAnswers :: "string list"
  showResult :: bool
  quizLoading :: bool
  selectedOption :: "string option"
  showExplanation :: bool
  analysis :: RealTimeAnalysis

definition initialState :: state where
  "initialState =
     \<lparr>messages = [Greeting], currentTopic = '''', isQuizMode = False, quizQuestions = [],
      currentQuestionIndex = 0, userAnswers = [], showResult = False, quizLoading = False,
      selectedOption = None, showExplanation = False, analysis = initialAnalysis\<rparr>"

text \<open>\<^verbatim>\<open>currentTopic || "General Study"\<close>\<close>

definition topicOf :: "state \<Rightarrow> string" where
  "topicOf s = (if currentTopic s = '''' then ''General Study'' else currentTopic s)"

text \<open>
  \<^verbatim>\<open>Math.max(Math.round((new Date().getTime() - startTime.getTime()) / 60000), 1)\<close>, where
  \<open>elapsed\<close> is the difference of the two clock readings in milliseconds.
\<close>

definition timeSpentOf :: "int \<Rightarrow> int" where
  "timeSpentOf elapsed = max (Math_round (js_div (of_int elapsed) 60000)) 1"

definition finishStudySession :: "int \<Rightarrow> state \<Rightarrow> summary" where
  "finishStudySession elapsed s =
     \<lparr>summary_topic = topicOf s,
      timeSpent = timeSpentOf elapsed,
      summary_messages = messages s,
      summary_analysis = analysis s,
      quizResult = None\<rparr>"

text \<open>
  The outcome of invoking \<^verbatim>\<open>generate-quiz\<close>: an error (thrown, caught, reported by a
  toast), or the data, which may be null; \<open>data_questions\<close> is \<^verbatim>\<open>data.quiz.questions\<close>,
  \<open>None\<close> when \<^verbatim>\<open>quiz\<close> or \<^verbatim>\<open>questions\<close> is missing.
\<close>

record quizData =
  data_success :: bool
  data_questions :: "QuizQuestion list option"

datatype invokeResult = InvokeError | InvokeData "quizData option"

text \<open>\<^verbatim>\<open>data?.success && data?.quiz?.questions?.length > 0\<close>, giving the questions.\<close>

definition generatedQuiz :: "invokeResult \<Rightarrow> QuizQuestion list option" where
  "generatedQuiz r =
     (case r of
        InvokeError \<Rightarrow> None
      | InvokeData None \<Rightarrow> None
      | InvokeData (Some d) \<Rightarrow>
          (case data_questions d of
             None \<Rightarrow> None
           | Some qs \<Rightarrow> if data_success d \<and> 0 < length qs then Some qs else None))"

text \<open>
  A handler returns the next state and the summary it passes to \<^verbatim>\<open>onEndStudy\<close>, if it
  calls it. \<^verbatim>\<open>handleEndStudyClick\<close> awaits the invocation; its outcome \<open>r\<close> is an argument.
\<close>

definition handleEndStudyClick :: "int \<Rightarrow> invokeResult \<Rightarrow> state \<Rightarrow> state \<times> summary option" where
  "handleEndStudyClick elapsed r s =
     (case generatedQuiz r of
        Some qs \<Rightarrow>
          (s\<lparr>quizQuestions := qs, isQuizMode := True, currentQuestionIndex := 0,
             userAnswers := [], messages := messages s @ [QuizIntro (length qs)],
             quizLoading := False\<rparr>,
           None)
      | None \<Rightarrow> (s\<lparr>quizLoading := False\<rparr>, Some (finishStudySession elapsed s)))"

definition handleQuizAnswer :: "string \<Rightarrow> state \<Rightarrow> state" where
  "handleQuizAnswer answer s =
     s\<lparr>selectedOption := Some answer, showExplanation := True,
       userAnswers := userAnswers s @ [answer]\<rparr>"

text \<open>
  \<^verbatim>\<open>calculateQuizResults\<close> as a handler: it shows the result, appends the result message
  and, from a timer, ends the session with the messages, the analysis and the answers of
  the render it was called in.
\<close>

definition calculateQuizResults_handler :: "int \<Rightarrow> state \<Rightarrow> state \<times> summary option" where
  "calculateQuizResults_handler elapsed s =
     (let r = calculateQuizResults (quizQuestions s) (userAnswers s)
      in (s\<lparr>showResult := True,
            messages := messages s @
              [ResultMessage (correctCount r) (length (quizQuestions s)) (understanding r)]\<rparr>,
          Some \<lparr>summary_topic = topicOf s,
                timeSpent = timeSpentOf elapsed,
                summary_messages = messages s,
                summary_analysis = analysis s,
                quizResult = Some r\<rparr>))"

definition handleNextQuestion :: "int \<Rightarrow> state \<Rightarrow> state \<times> summary option" where
  "handleNextQuestion elapsed s =
     (let s1 = s\<lparr>selectedOption := None, showExplanation := False\<rparr>
      in if int (currentQuestionIndex s) < int (length (quizQuestions s)) - 1
         then (s1\<lparr>currentQuestionIndex := currentQuestionIndex s + 1\<rparr>, None)
         else calculateQuizResults_handler elapsed s1)"

text \<open>
  The events of the rendered component that reach these handlers. The question card is
  rendered when \<^verbatim>\<open>isQuizMode && currentQuestion && !showResult\<close>; the option buttons call
  \<^verbatim>\<open>handleQuizAnswer\<close> only when \<^verbatim>\<open>!showExplanation\<close>; the text input exists for
  \<^verbatim>\<open>fill_blank\<close> and \<^verbatim>\<open>short_answer\<close> questions while \<^verbatim>\<open>!showExplanation\<close> and submits a
  non-empty \<^verbatim>\<open>selectedOption\<close>; the next button exists while \<^verbatim>\<open>showExplanation\<close>; the end
  button exists while \<^verbatim>\<open>!isQuizMode\<close> and is disabled while \<^verbatim>\<open>quizLoading\<close>. An event
  the rendering does not offer leaves the state as it is.
\<close>

datatype event =
    ClickEndStudy int invokeResult
  | ClickOption string
  | ChangeInput string
  | SubmitInput
  | ClickNext int

definition currentQuestion :: "state \<Rightarrow> QuizQuestion option" where
  "currentQuestion s =
     (if isQuizMode s \<and> \<not> showResult s
      then elemAt (quizQuestions s) (currentQuestionIndex s) else None)"

definition offersOption :: "QuizQuestion \<Rightarrow> string \<Rightarrow> bool" where
  "offersOption q opt =
     ((qtype q = mcq \<and> (case options q of None \<Rightarrow> False | Some os \<Rightarrow> opt \<in> set os)) \<or>
      (qtype q = true_false \<and> opt \<in> set [''True'', ''False'']))"

definition hasTextInput :: "QuizQuestion \<Rightarrow> bool" where
  "hasTextInput q = (qtype q = fill_blank \<or> qtype q = short_answer)"

fun step :: "event \<Rightarrow> state \<Rightarrow> state \<times> summary option" where
  "step (ClickEndStudy elapsed r) s =
     (if \<not> isQuizMode s \<and> \<not> quizLoading s then handleEndStudyClick elapsed r s else (s, None))"
| "step (ClickOption opt) s =
     (case currentQuestion s of
        None \<Rightarrow> (s, None)
      | Some q \<Rightarrow>
          if offersOption q opt \<and> \<not> showExplanation s then (handleQuizAnswer opt s, None)
          else (s, None))"
| "step (ChangeInput v) s =
     (case currentQuestion s of
        None \<Rightarrow> (s, None)
      | Some q \<Rightarrow>
          if hasTextInput q \<and> \<not> showExplanation s then (s\<lparr>selectedOption := Some v\<rparr>, None)
          else (s, None))"
| "step SubmitInput s =
     (case currentQuestion s of
        None \<Rightarrow> (s, None)
      | Some q \<Rightarrow>
          if hasTextInput q \<and> \<not> showExplanation s
          then (case selectedOption s of
                  None \<Rightarrow> (s, None)
                | Some v \<Rightarrow> if v = '''' then (s, None) else (handleQuizAnswer v s, None))
          else (s, None))"
| "step (ClickNext elapsed) s =
     (case currentQuestion s of
        None \<Rightarrow> (s, None)
      | Some q \<Rightarrow> if showExplanation s then handleNextQuestion elapsed s else (s, None))"

definition run :: "event list \<Rightarrow> state \<Rightarrow> state" where
  "run evs s = foldl (\<lambda>t e. fst (step e t)) s evs"

text \<open>
  What holds of the quiz state between events: outside quiz mode no answer has been
  recorded; in quiz mode the current index points at a question, and the answers are those
  of the earlier questions, together with the answer to the current one once it has been
  given (the explanation or the result is showing).
\<close>

definition quizInvariant :: "state \<Rightarrow> bool" where
  "quizInvariant s =
     (if isQuizMode s
      then currentQuestionIndex s < length (quizQuestions s) \<and>
           length (userAnswers s) =
             currentQuestionIndex s + (if showExplanation s \<or> showResult s then 1 else 0)
      else userAnswers s = [] \<and> \<not> showExplanation s \<and> \<not> showResult s)"

section \<open>School student approval (supabase/functions/school-student-approval/index.ts)\<close>

text \<open>
  The JSON body of a request. A field of the interface may be missing from the JSON that
  arrives (\<open>None\<close>); the handler tests the four required ones for a true value, which a
  missing field and the empty string are not.
\<close>

record SchoolStudentApprovalRequest =
  action :: "string option"
  schoolId :: "string option"
  schoolPassword :: "string option"
  studentId :: "string option"
  rejectionReason :: "string option"

text \<open>
  \<^verbatim>\<open>await req.json()\<close> throws on a body that is not JSON (with a message), and may give
  \<^verbatim>\<open>null\<close>.
\<close>

datatype requestBody = InvalidJson string | JsonNull | JsonObject SchoolStudentApprovalRequest

record request =
  req_method :: string
  req_body :: requestBody

text \<open>
  The two tables. \<open>school_pk\<close> and \<open>student_pk\<close> are the columns \<^verbatim>\<open>id\<close>,
  \<open>student_school\<close> is the column \<^verbatim>\<open>school_id\<close> of \<^verbatim>\<open>students\<close>; the other fields carry
  the names of their columns.
\<close>

record school_row =
  school_pk :: string
  school_id :: string
  password_hash :: string
  school_name :: string

record student_row =
  student_pk :: string
  student_school :: "string option"
  is_approved :: bool
  approved_at :: "string option"
  rejection_reason :: "string option"

record database =
  schools :: "school_row list"
  students :: "student_row list"

text \<open>
  What the handler finds around it: whether both environment variables are set, and
  whether the backend fails a query or an update for a reason of its own.
\<close>

record backend =
  configured :: bool
  schoolLookupFails :: bool
  studentLookupFails :: bool
  updateFails :: bool

record responseBody =
  success :: bool
  status :: "string option"
  error :: "string option"

record response =
  http_status :: nat
  json :: "responseBody option"

definition failure :: "nat \<Rightarrow> string \<Rightarrow> response" where
  "failure code msg =
     \<lparr>http_status = code, json = Some \<lparr>success = False, status = None, error = Some msg\<rparr>\<rparr>"

definition succeeded :: "string \<Rightarrow> response" where
  "succeeded st =
     \<lparr>http_status = 200, json = Some \<lparr>success = True, status = Some st, error = None\<rparr>\<rparr>"

text \<open>
  \<^verbatim>\<open>.maybeSingle()\<close> of the database client: no row gives \<^verbatim>\<open>null\<close> data, one row gives
  the row, several rows are an error, as is a failure of the query itself.
\<close>

definition maybeSingle :: "bool \<Rightarrow> 'a list \<Rightarrow> unit + 'a option" where
  "maybeSingle fails rows =
     (if fails then Inl ()
      else (case rows of
              [] \<Rightarrow> Inr None
            | [r] \<Rightarrow> Inr (Some r)
            | r # r' # rs \<Rightarrow> Inl ()))"

text \<open>
  \<^verbatim>\<open>!body?.action || !body?.schoolId || !body?.schoolPassword || !body?.studentId\<close>:
  the four fields, when each has a true value.
\<close>

definition truthy :: "string option \<Rightarrow> bool" where
  "truthy v = (case v of None \<Rightarrow> False | Some x \<Rightarrow> x \<noteq> '''')"

definition requiredFields ::
  "SchoolStudentApprovalRequest \<Rightarrow> (string \<times> string \<times> string \<times> string) option" where
  "requiredFields b =
     (case (action b, schoolId b, schoolPassword b, studentId b) of
        (Some a, Some sid, Some pw, Some stu) \<Rightarrow>
          if truthy (action b) \<and> truthy (schoolId b) \<and> truthy (schoolPassword b) \<and>
             truthy (studentId b)
          then Some (a, sid, pw, stu) else None
      | _ \<Rightarrow> None)"

text \<open>\<^verbatim>\<open>(body.rejectionReason || "No reason provided").trim()\<close>\<close>

definition reasonOf :: "SchoolStudentApprovalRequest \<Rightarrow> string" where
  "reasonOf b =
     trim (if truthy (rejectionReason b)
           then (case rejectionReason b of Some r \<Rightarrow> r | None \<Rightarrow> ''No reason provided'')
           else ''No reason provided'')"

text \<open>The two updates, applied to every row whose \<^verbatim>\<open>id\<close> is the student's.\<close>

definition approveUpdate :: "string \<Rightarrow> string \<Rightarrow> student_row list \<Rightarrow> student_row list" where
  "approveUpdate now stu rows =
     map (\<lambda>r. if student_pk r = stu
               then r\<lparr>is_approved := True, approved_at := Some now, rejection_reason := None\<rparr>
               else r) rows"

definition rejectUpdate :: "string \<Rightarrow> string \<Rightarrow> student_row list \<Rightarrow> student_row list" where
  "rejectUpdate reason stu rows =
     map (\<lambda>r. if student_pk r = stu
               then r\<lparr>is_approved := False, rejection_reason := Some reason\<rparr>
               else r) rows"

text \<open>
  The rows the two queries select:
  \<^verbatim>\<open>from("schools").eq("school_id", body.schoolId).eq("password_hash", body.schoolPassword)\<close>
  and \<^verbatim>\<open>from("students").eq("id", body.studentId)\<close>.
\<close>

definition schoolsMatching :: "string \<Rightarrow> string \<Rightarrow> database \<Rightarrow> school_row list" where
  "schoolsMatching sid pw db =
     filter (\<lambda>r. school_id r = sid \<and> password_hash r = pw) (schools db)"

definition studentsWithId :: "string \<Rightarrow> database \<Rightarrow> student_row list" where
  "studentsWithId stu db = filter (\<lambda>r. student_pk r = stu) (students db)"

text \<open>
  The handler, from the request and the database to the response and the database it
  leaves. \<open>now\<close> is \<^verbatim>\<open>new Date().toISOString()\<close>. The response headers are left out.
\<close>

definition handler :: "backend \<Rightarrow> string \<Rightarrow> request \<Rightarrow> database \<Rightarrow> response \<times> database" where
  "handler be now req db =
     (if req_method req = ''OPTIONS'' then (\<lparr>http_status = 200, json = None\<rparr>, db)
      else (case req_body req of
        InvalidJson msg \<Rightarrow> (failure 500 msg, db)
      | JsonNull \<Rightarrow> (failure 400 ''Missing required fields'', db)
      | JsonObject b \<Rightarrow>
         (case requiredFields b of
            None \<Rightarrow> (failure 400 ''Missing required fields'', db)
          | Some (act, sid, pw, stu) \<Rightarrow>
             if \<not> configured be then (failure 500 ''Backend configuration error'', db)
             else (case maybeSingle (schoolLookupFails be) (schoolsMatching sid pw db) of
                Inl _ \<Rightarrow> (failure 500 ''School validation failed'', db)
              | Inr None \<Rightarrow> (failure 401 ''Invalid school credentials'', db)
              | Inr (Some school) \<Rightarrow>
                 (case maybeSingle (studentLookupFails be) (studentsWithId stu db) of
                    Inl _ \<Rightarrow> (failure 500 ''Student lookup failed'', db)
                  | Inr None \<Rightarrow> (failure 404 ''Student not found for this school'', db)
                  | Inr (Some student) \<Rightarrow>
                     if student_school student \<noteq> Some (school_pk school)
                     then (failure 404 ''Student not found for this school'', db)
                     else if act = ''approve''
                     then (if updateFails be then (failure 500 ''Failed to approve student'', db)
                           else (succeeded ''approved'',
                                 db\<lparr>students := approveUpdate now stu (students db)\<rparr>))
                     else (if updateFails be then (failure 500 ''Failed to reject student'', db)
                           else (succeeded ''rejected'',
                                 db\<lparr>students := rejectUpdate (reasonOf b) stu (students db)\<rparr>)))))))"

section \<open>Sample data\<close>

text \<open>Questions and a database used to run the definitions on concrete inputs.\<close>

definition capitalOfItaly :: "string list option \<Rightarrow> QuizQuestion" where
  "capitalOfItaly os =
     \<lparr>qid = 1, qtype = short_answer, question = ''Capital of Italy?'', options = os,
      correct_answer = ''Rome'', explanation = ''Rome is the capital.'', difficulty = ''easy'',
      topic = ''Geography''\<rparr>"

definition trueOrFalse :: "int \<Rightarrow> string \<Rightarrow> QuizQuestion" where
  "trueOrFalse n ca =
     \<lparr>qid = n, qtype = true_false, question = ''Is it so?'', options = None,
      correct_answer = ca, explanation = '''', difficulty = ''easy'', topic = ''Logic''\<rparr>"

definition fiveQuestions :: "QuizQuestion list" where
  "fiveQuestions =
     [trueOrFalse 1 ''true'', trueOrFalse 2 ''false'', trueOrFalse 3 ''true'',
      trueOrFalse 4 ''true'', trueOrFalse 5 ''false'']"

definition fiveAnswers :: "string list" where
  "fiveAnswers = [''True'', ''False'', ''True'', ''False'', ''False'']"



definition quizOfFive :: event where
  "quizOfFive =
     ClickEndStudy 90000
       (InvokeData (Some \<lparr>data_success = True, data_questions = Some fiveQuestions\<rparr>))"

definition sampleDatabase :: database where
  "sampleDatabase =
     \<lparr>schools =
        [\<lparr>school_pk = ''u-1'', school_id = ''SCH001'', password_hash = ''secret'',
          school_name = ''First School''\<rparr>],
      students =
        [\<lparr>student_pk = ''st-1'', student_school = Some ''u-1'', is_approved = False,
          approved_at = None, rejection_reason = Some ''incomplete''\<rparr>,
         \<lparr>student_pk = ''st-2'', student_school = Some ''u-1'', is_approved = False,
          approved_at = None, rejection_reason = None\<rparr>]\<rparr>"

definition sampleBackend :: backend where
  "sampleBackend =
     \<lparr>configured = True, schoolLookupFails = False, studentLookupFails = False,
      updateFails = False\<rparr>"

definition approvalRequest ::
  "string \<Rightarrow> string \<Rightarrow> string option \<Rightarrow> string option \<Rightarrow> SchoolStudentApprovalRequest" where
  "approvalRequest act pw stu reason =
     \<lparr>action = Some act, schoolId = Some ''SCH001'', schoolPassword = Some pw,
      studentId = stu, rejectionReason = reason\<rparr>"

definition post :: "SchoolStudentApprovalRequest \<Rightarrow> request" where
  "post b = \<lparr>req_method = ''POST'', req_body = JsonObject b\<rparr>"

section \<open>Properties of the number model\<close>

lemma pow2_powi: "pow2 k = 2 powi k"
  by (simp add: pow2_def power_int_def field_simps)

lemma pow2_pos: "0 < pow2 k"
  by (simp add: pow2_powi)

lemma pow2_diff_nat: "pow2 (int a - int b) = 2 ^ a / 2 ^ b"
  by (simp add: pow2_powi power_int_diff)

lemma bitLength_bounds: "0 < k \<Longrightarrow> 2 ^ (bitLength k - 1) \<le> k \<and> k < 2 ^ bitLength k"
proof (induction k rule: bitLength.induct)
  case (1 k)
  show ?case
  proof (cases "k div 2 = 0")
    case True
    with "1.prems" have "k = 1" by presburger
    then show ?thesis by simp
  next
    case False
    with "1.prems" have pos: "0 < k div 2" by presburger
    have ih: "2 ^ (bitLength (k div 2) - 1) \<le> k div 2 \<and> k div 2 < 2 ^ bitLength (k div 2)"
      using "1.IH" "1.prems" pos by simp
    have bl: "bitLength k = Suc (bitLength (k div 2))" using "1.prems" by simp
    have b1: "1 \<le> bitLength (k div 2)" using pos by (subst bitLength.simps) simp
    have "2 ^ (bitLength k - 1) = 2 * (2::int) ^ (bitLength (k div 2) - 1)"
      using b1 by (simp add: bl power_Suc[symmetric] del: power_Suc bitLength.simps)
    also have "\<dots> \<le> 2 * (k div 2)" using ih by simp
    also have "\<dots> \<le> k" by presburger
    finally have lo: "2 ^ (bitLength k - 1) \<le> k" .
    have "k < 2 * (k div 2 + 1)" by presburger
    also have "\<dots> \<le> 2 * 2 ^ bitLength (k div 2)" using ih by simp
    finally have "k < 2 ^ bitLength k" by (simp add: bl del: bitLength.simps)
    with lo show ?thesis by simp
  qed
qed

lemma bitLength_pos: "0 < k \<Longrightarrow> 1 \<le> bitLength k"
  by (subst bitLength.simps) simp

lemma ilog2_bounds:
  assumes "0 < x"
  shows "pow2 (ilog2 x) \<le> x \<and> x < pow2 (ilog2 x + 1)"
proof -
  obtain p q where pq: "quotient_of x = (p, q)" by (cases "quotient_of x")
  have q: "0 < q" using pq by (rule quotient_of_denom_pos)
  have x: "x = of_int p / of_int q" using pq by (rule quotient_of_div)
  have p: "0 < p" using assms q x by (simp add: zero_less_divide_iff)
  define fp where "fp = bitLength p"
  define fq where "fq = bitLength q"
  have fp1: "1 \<le> fp" unfolding fp_def using p by (rule bitLength_pos)
  have fq1: "1 \<le> fq" unfolding fq_def using q by (rule bitLength_pos)
  have P1: "(2::rat) ^ (fp - 1) \<le> of_int p"
    using bitLength_bounds[OF p] unfolding fp_def
    by (metis of_int_le_iff of_int_numeral of_int_power)
  have P2: "of_int p < (2::rat) ^ fp"
    using bitLength_bounds[OF p] unfolding fp_def
    by (metis of_int_less_iff of_int_numeral of_int_power)
  have Q1: "(2::rat) ^ (fq - 1) \<le> of_int q"
    using bitLength_bounds[OF q] unfolding fq_def
    by (metis of_int_le_iff of_int_numeral of_int_power)
  have Q2: "of_int q < (2::rat) ^ fq"
    using bitLength_bounds[OF q] unfolding fq_def
    by (metis of_int_less_iff of_int_numeral of_int_power)
  have qpos: "(0::rat) < of_int q" using q by simp
  have ppos: "(0::rat) < of_int p" using p by simp
  have lo: "pow2 (int fp - int fq - 1) \<le> x"
  proof -
    have "pow2 (int fp - int fq - 1) = 2 ^ (fp - 1) / 2 ^ fq"
      using fp1 pow2_diff_nat[of "fp - 1" fq] by (simp add: of_nat_diff algebra_simps)
    also have "\<dots> \<le> of_int p / 2 ^ fq"
      using P1 by (simp add: divide_right_mono)
    also have "\<dots> \<le> of_int p / of_int q"
      using Q2 qpos ppos by (simp add: frac_le)
    finally show ?thesis using x by simp
  qed
  have hi: "x < pow2 (int fp - int fq + 1)"
  proof -
    have "x = of_int p / of_int q" by (rule x)
    also have "\<dots> < 2 ^ fp / of_int q"
      using P2 qpos by (simp add: divide_strict_right_mono)
    also have "\<dots> \<le> 2 ^ fp / 2 ^ (fq - 1)"
      using Q1 by (simp add: frac_le)
    also have "\<dots> = pow2 (int fp - int fq + 1)"
      using fq1 pow2_diff_nat[of fp "fq - 1"] by (simp add: of_nat_diff algebra_simps)
    finally show ?thesis .
  qed
  show ?thesis
  proof (cases "pow2 (int fp - int fq) \<le> x")
    case True
    then have "ilog2 x = int fp - int fq"
      by (simp add: ilog2_def pq fp_def fq_def del: bitLength.simps)
    with True hi show ?thesis by simp
  next
    case False
    then have "ilog2 x = int fp - int fq - 1"
      by (simp add: ilog2_def pq fp_def fq_def del: bitLength.simps)
    with False lo show ?thesis by simp
  qed
qed

lemma roundHalfEven_err: "\<bar>of_int (roundHalfEven y) - y\<bar> \<le> 1 / 2"
proof -
  have "of_int \<lfloor>y\<rfloor> \<le> y" "y < of_int \<lfloor>y\<rfloor> + 1" by linarith+
  then show ?thesis
    by (auto simp: roundHalfEven_def Let_def abs_le_iff)
qed

lemma toDouble_err:
  assumes "0 < x"
  shows "\<bar>toDouble x - x\<bar> \<le> x / 2 ^ 53"
proof -
  define u where "u = pow2 (ilog2 \<bar>x\<bar> - 52)"
  have upos: "0 < u" unfolding u_def by (rule pow2_pos)
  have td: "toDouble x = of_int (roundHalfEven (x / u)) * u"
    using assms by (simp add: toDouble_def u_def Let_def)
  have "\<bar>toDouble x - x\<bar> = \<bar>of_int (roundHalfEven (x / u)) - x / u\<bar> * u"
  proof -
    have "toDouble x - x = (of_int (roundHalfEven (x / u)) - x / u) * u"
      using upos by (simp add: td field_simps)
    then show ?thesis using upos by (simp add: abs_mult)
  qed
  also have "\<dots> \<le> (1 / 2) * u"
    using roundHalfEven_err[of "x / u"] upos by (simp add: mult_right_mono)
  also have "\<dots> = pow2 (ilog2 x) / 2 ^ 53"
    using assms by (simp add: u_def pow2_powi power_int_diff)
  also have "\<dots> \<le> x / 2 ^ 53"
    using ilog2_bounds[OF assms] by (simp add: divide_right_mono)
  finally show ?thesis .
qed


lemma toDouble_zero: "toDouble 0 = 0"
  by (simp add: toDouble_def)

lemma toDouble_pos:
  assumes "0 < x"
  shows "0 < toDouble x"
proof -
  have "x / 2 ^ 53 \<le> x / 2" using assms by (simp add: field_simps)
  then show ?thesis using toDouble_err[OF assms] assms by linarith
qed

lemma percent_err:
  assumes "0 < q" "q \<le> 1"
  shows "\<bar>toDouble (toDouble q * 100) - 100 * q\<bar> \<le> 1 / 2 ^ 45"
proof -
  define e :: rat where "e = 1 / 2 ^ 53"
  define q' where "q' = toDouble q"
  define y where "y = q' * 100"
  have epos: "0 < e" "e \<le> 1" by (simp_all add: e_def)
  have q': "\<bar>q' - q\<bar> \<le> q * e"
    using toDouble_err[OF assms(1)] by (simp add: q'_def e_def)
  have q'pos: "0 < q'" unfolding q'_def using assms(1) by (rule toDouble_pos)
  have q'le: "q' \<le> q * (1 + e)" using q' by (simp add: abs_le_iff algebra_simps)
  have ypos: "0 < y" using q'pos by (simp add: y_def)
  have y: "\<bar>toDouble y - y\<bar> \<le> y * e"
    using toDouble_err[OF ypos] by (simp add: e_def)
  have "\<bar>toDouble y - 100 * q\<bar> \<le> \<bar>toDouble y - y\<bar> + \<bar>y - 100 * q\<bar>" by simp
  also have "\<dots> \<le> y * e + 100 * (q * e)"
  proof -
    have "\<bar>y - 100 * q\<bar> = 100 * \<bar>q' - q\<bar>" by (simp add: y_def abs_if)
    with q' y show ?thesis by simp
  qed
  also have "\<dots> \<le> 100 * (q * (1 + e)) * e + 100 * (q * e)"
  proof -
    have "y \<le> 100 * (q * (1 + e))" using q'le by (simp add: y_def)
    then have "y * e \<le> 100 * (q * (1 + e)) * e"
      using epos by (simp add: mult_right_mono)
    then show ?thesis by simp
  qed
  also have "\<dots> = q * (100 * e * (2 + e))" by (simp add: algebra_simps)
  also have "\<dots> \<le> 1 * (100 * e * (2 + e))"
    using assms(2) epos by (intro mult_right_mono) simp_all
  also have "\<dots> \<le> 1 / 2 ^ 45" by (simp add: e_def)
  finally show ?thesis by (simp add: y_def q'_def)
qed

lemma Math_round_near_percent:
  fixes y :: rat
  assumes n: "0 < n" "n < 2 ^ 32"
    and err: "\<bar>y - 100 * of_nat c / of_nat n\<bar> \<le> 1 / 2 ^ 45"
  shows "\<bar>of_int (Math_round y) - 100 * of_nat c / of_nat n\<bar> \<le> (1 / 2 :: rat)"
proof -
  define k where "k = Math_round y"
  define x :: rat where "x = 100 * of_nat c / of_nat n"
  define N :: int where "N = int n"
  define X :: int where "X = 200 * int c"
  have Npos: "0 < N" using n by (simp add: N_def)
  have NposR: "(0::rat) < of_int N" using Npos by simp
  have x: "x = of_int X / (2 * of_int N)" by (simp add: x_def X_def N_def)
  have ky: "of_int k - 1 / 2 \<le> y" "y < of_int k + 1 / 2"
    unfolding k_def Math_round_def by linarith+
  have small: "(1 :: rat) / 2 ^ 45 < 1 / (2 * of_int N)"
  proof -
    have "N < 2 ^ 32" using n by (simp add: N_def)
    then have "2 * N < 2 ^ 45" by simp
    then have "(2 * of_int N :: rat) < 2 ^ 45"
      by (metis of_int_less_iff of_int_mult of_int_numeral of_int_power)
    then show ?thesis using NposR by (simp add: frac_less2)
  qed
  have up: "X \<le> (2 * k + 1) * N"
  proof (rule ccontr)
    assume "\<not> X \<le> (2 * k + 1) * N"
    then have "(2 * k + 1) * N + 1 \<le> X" by simp
    then have "(of_int ((2 * k + 1) * N + 1) :: rat) \<le> of_int X" by (simp only: of_int_le_iff)
    then have "(of_int ((2 * k + 1) * N + 1) :: rat) / (2 * of_int N) \<le> x"
      unfolding x using NposR by (simp add: divide_right_mono)
    moreover have "(of_int ((2 * k + 1) * N + 1) :: rat) / (2 * of_int N)
        = of_int k + 1 / 2 + 1 / (2 * of_int N)"
      using NposR by (simp add: field_simps)
    ultimately have "of_int k + 1 / 2 + 1 / (2 * of_int N) \<le> x" by simp
    with ky(2) have "1 / (2 * of_int N) < x - y" by simp
    with small err show False by (simp add: x_def abs_le_iff)
  qed
  have lo: "(2 * k - 1) * N \<le> X"
  proof (rule ccontr)
    assume "\<not> (2 * k - 1) * N \<le> X"
    then have "X \<le> (2 * k - 1) * N - 1" by simp
    then have "(of_int X :: rat) \<le> of_int ((2 * k - 1) * N - 1)" by (simp only: of_int_le_iff)
    then have "x \<le> (of_int ((2 * k - 1) * N - 1) :: rat) / (2 * of_int N)"
      unfolding x using NposR by (simp add: divide_right_mono)
    moreover have "(of_int ((2 * k - 1) * N - 1) :: rat) / (2 * of_int N)
        = of_int k - 1 / 2 - 1 / (2 * of_int N)"
      using NposR by (simp add: field_simps)
    ultimately have "x \<le> of_int k - 1 / 2 - 1 / (2 * of_int N)" by simp
    with ky(1) have "1 / (2 * of_int N) \<le> y - x" by simp
    with small err show False by (simp add: x_def abs_le_iff)
  qed
  have "(of_int X :: rat) \<le> of_int ((2 * k + 1) * N)" using up by (simp only: of_int_le_iff)
  then have a: "x \<le> of_int k + 1 / 2"
    unfolding x using NposR by (simp add: field_simps)
  have "(of_int ((2 * k - 1) * N) :: rat) \<le> of_int X" using lo by (simp only: of_int_le_iff)
  then have b: "of_int k - 1 / 2 \<le> x"
    unfolding x using NposR by (simp add: field_simps)
  from a b have "\<bar>of_int k - x\<bar> \<le> 1 / 2" by linarith
  then show ?thesis by (simp only: k_def x_def)
qed


text \<open>
  On a tie the two neighbouring integers are equally near, and binary rounding decides:
  23 correct answers out of 40 are 57.5 percent, the product computed is just below
  that, and the accuracy reported is 57.
\<close>

lemma accuracyOf_4_5: "accuracyOf 4 5 = Some 80"
proof -
  have a: "toDouble (toDouble (4 / 5) * 100) = 80" by code_simp
  have c: "Math_round 80 = 80" by code_simp
  show ?thesis
    by (simp add: accuracyOf_def js_mul_def js_div_def a c)
qed


lemma accuracyOf_near:
  assumes "0 < n" "c \<le> n" "n < 2 ^ 32"
  shows "\<exists>a. accuracyOf c n = Some a \<and>
             \<bar>of_int a - 100 * of_nat c / of_nat n\<bar> \<le> (1 / 2 :: rat)"
proof -
  define y where "y = js_mul (js_div (of_nat c) (of_nat n)) 100"
  have acc: "accuracyOf c n = Some (Math_round y)"
    using assms(1) by (simp add: accuracyOf_def y_def)
  have "\<bar>y - 100 * of_nat c / of_nat n\<bar> \<le> 1 / 2 ^ 45"
  proof (cases "c = 0")
    case True
    then show ?thesis by (simp add: y_def js_mul_def js_div_def toDouble_zero)
  next
    case False
    define q :: rat where "q = of_nat c / of_nat n"
    have "0 < q" using False assms(1) by (simp add: q_def)
    moreover have "q \<le> 1" using assms(1,2) by (simp add: q_def)
    ultimately have "\<bar>toDouble (toDouble q * 100) - 100 * q\<bar> \<le> 1 / 2 ^ 45"
      by (rule percent_err)
    then show ?thesis by (simp add: y_def js_mul_def js_div_def q_def)
  qed
  then have "\<bar>of_int (Math_round y) - 100 * of_nat c / of_nat n\<bar> \<le> (1 / 2 :: rat)"
    using assms(1,3) by (intro Math_round_near_percent) simp_all
  with acc show ?thesis by simp
qed


section \<open>Properties of the quiz scoring\<close>

lemma elemAt_nth: "elemAt xs i = (if i < length xs then Some (xs ! i) else None)"
  by (induction xs i rule: elemAt.induct) simp_all

lemma elemAt_append_other: "i \<noteq> length xs \<Longrightarrow> elemAt (xs @ [a]) i = elemAt xs i"
  by (simp add: elemAt_nth nth_append)

lemma elemAt_append_last: "elemAt (xs @ [a]) (length xs) = Some a"
  by (simp add: elemAt_nth)

lemma forEach_count_filter:
  "forEach_count qs ans i c =
     c + length (filter (\<lambda>j. isCorrect (qs ! j) (elemAt ans (i + j))) [0..<length qs])"
proof (induction qs arbitrary: i c)
  case Nil
  show ?case by simp
next
  case (Cons q qs)
  have shift: "[0..<length (q # qs)] = 0 # map Suc [0..<length qs]"
    by (simp add: upt_conv_Cons map_Suc_upt del: upt_Suc)
  show ?case
    unfolding shift by (simp add: Cons.IH filter_map o_def)
qed

text \<open>The count is the number of question indices whose test succeeds.\<close>

lemma countCorrect_card:
  "countCorrect qs ans =
     card {j. j < length qs \<and> isCorrect (qs ! j) (elemAt ans j)}"
proof -
  have "{j. j < length qs \<and> isCorrect (qs ! j) (elemAt ans j)} =
        set (filter (\<lambda>j. isCorrect (qs ! j) (elemAt ans j)) [0..<length qs])"
    by auto
  moreover have "distinct (filter (\<lambda>j. isCorrect (qs ! j) (elemAt ans j)) [0..<length qs])"
    by simp
  ultimately show ?thesis
    by (simp only: countCorrect_def forEach_count_filter distinct_card add_0 add_0_left)
qed

lemma countCorrect_le_length: "countCorrect qs ans \<le> length qs"
proof -
  have "length (filter (\<lambda>j. isCorrect (qs ! j) (elemAt ans j)) [0..<length qs])
        \<le> length [0..<length qs]"
    by (rule length_filter_le)
  then show ?thesis by (simp add: countCorrect_def forEach_count_filter)
qed

lemma trim_idem: "trim (trim s) = trim s"
proof -
  define t where "t = dropWhile isWhiteSpace s"
  define w where "w = dropWhile isWhiteSpace (rev t)"
  have u: "trim s = rev w" by (simp add: trim_def t_def w_def)
  have split: "t = rev w @ rev (takeWhile isWhiteSpace (rev t))"
  proof -
    have "rev t = takeWhile isWhiteSpace (rev t) @ w" by (simp add: w_def)
    then have "rev (rev t) = rev (takeWhile isWhiteSpace (rev t) @ w)" by (rule arg_cong)
    then show ?thesis by simp
  qed
  have front: "dropWhile isWhiteSpace (rev w) = rev w"
  proof (cases "rev w = []")
    case True
    then show ?thesis by simp
  next
    case False
    then have "hd (rev w) = hd t" using split by (metis hd_append2)
    moreover have "t \<noteq> []" using False split by auto
    then have "\<not> isWhiteSpace (hd t)" unfolding t_def by (rule hd_dropWhile)
    ultimately show ?thesis by (simp add: dropWhile_eq_self_iff)
  qed
  have rear: "dropWhile isWhiteSpace w = w" by (simp add: w_def)
  show ?thesis
    unfolding u by (simp add: trim_def front rear)
qed

lemma indexOf_ge: "- 1 \<le> indexOf xs x"
  by (induction xs) (simp_all add: Let_def)

lemma indexOf_missing: "indexOf xs x = - 1 \<longleftrightarrow> x \<notin> set xs"
proof (induction xs)
  case Nil
  show ?case by simp
next
  case (Cons y ys)
  show ?case
  proof (cases "y = x")
    case True
    then show ?thesis by simp
  next
    case False
    have "indexOf (y # ys) x = - 1 \<longleftrightarrow> indexOf ys x < 0"
      using False by (simp add: Let_def)
    also have "\<dots> \<longleftrightarrow> indexOf ys x = - 1" using indexOf_ge[of ys x] by linarith
    finally show ?thesis using Cons.IH False by simp
  qed
qed

lemma indexOf_found:
  "x \<in> set xs \<Longrightarrow>
     0 \<le> indexOf xs x \<and> nat (indexOf xs x) < length xs \<and> xs ! nat (indexOf xs x) = x"
proof (induction xs)
  case Nil
  then show ?case by simp
next
  case (Cons y ys)
  show ?case
  proof (cases "y = x")
    case True
    then show ?thesis by simp
  next
    case False
    with Cons.prems have mem: "x \<in> set ys" by simp
    from Cons.IH[OF mem] have ih: "0 \<le> indexOf ys x" "nat (indexOf ys x) < length ys"
      "ys ! nat (indexOf ys x) = x" by simp_all
    have eq: "indexOf (y # ys) x = indexOf ys x + 1" using False ih(1) by (simp add: Let_def)
    have n: "nat (indexOf ys x + 1) = Suc (nat (indexOf ys x))" using ih(1) by simp
    show ?thesis unfolding eq n using ih by simp
  qed
qed

text \<open>
  What the test accepts: an answer equal to the correct answer after lower-casing and
  trimming, or, for a question with an options array, an answer that is not among the
  options while the correct answer is not among the lower-cased options. Two equal
  indices of answers that are found never add anything to the first case.
\<close>

lemma isCorrect_Some_iff:
  "isCorrect q (Some a) \<longleftrightarrow>
     trim (toLowerCase a) = trim (toLowerCase (correct_answer q)) \<or>
     (\<exists>os. options q = Some os \<and> a \<notin> set os \<and>
           trim (toLowerCase (correct_answer q)) \<notin> set (map toLowerCase os))"
proof (cases "options q")
  case None
  then show ?thesis by (simp add: isCorrect_def)
next
  case (Some os)
  define ca where "ca = trim (toLowerCase (correct_answer q))"
  have ic: "isCorrect q (Some a) \<longleftrightarrow>
              trim (toLowerCase a) = ca \<or> indexOf os a = indexOf (map toLowerCase os) ca"
    by (simp add: isCorrect_def Some indexOf_undef_def ca_def Let_def)
  show ?thesis
  proof (cases "a \<in> set os")
    case False
    then have "indexOf os a = - 1" by (simp add: indexOf_missing)
    then have "indexOf os a = indexOf (map toLowerCase os) ca \<longleftrightarrow> ca \<notin> set (map toLowerCase os)"
      using indexOf_missing[of "map toLowerCase os" ca] by auto
    with ic False Some show ?thesis by (simp add: ca_def)
  next
    case True
    from indexOf_found[OF True] have k: "0 \<le> indexOf os a" "nat (indexOf os a) < length os"
      "os ! nat (indexOf os a) = a" by simp_all
    have "trim (toLowerCase a) = ca" if eq: "indexOf os a = indexOf (map toLowerCase os) ca"
    proof -
      have "indexOf (map toLowerCase os) ca \<noteq> - 1" using eq k(1) by simp
      then have "ca \<in> set (map toLowerCase os)" by (simp add: indexOf_missing)
      from indexOf_found[OF this] have "map toLowerCase os ! nat (indexOf (map toLowerCase os) ca) = ca"
        by simp
      then have "map toLowerCase os ! nat (indexOf os a) = ca" by (simp add: eq)
      then have "toLowerCase a = ca" using k(2,3) by simp
      then have "trim (toLowerCase a) = trim ca" by simp
      then show ?thesis by (simp add: ca_def trim_idem)
    qed
    with ic True Some show ?thesis by (auto simp: ca_def)
  qed
qed

lemma isCorrect_None_iff:
  "isCorrect q None \<longleftrightarrow>
     (\<exists>os. options q = Some os \<and>
           trim (toLowerCase (correct_answer q)) \<notin> set (map toLowerCase os))"
proof (cases "options q")
  case None
  then show ?thesis by (simp add: isCorrect_def)
next
  case (Some os)
  then show ?thesis
    using indexOf_missing[of "map toLowerCase os" "trim (toLowerCase (correct_answer q))"]
    by (auto simp: isCorrect_def indexOf_undef_def Let_def)
qed


lemmas string_ops =
  toLowerCase_def toLowerChar_def upperCaseLetters_def lowerCaseLetters_def trim_def
  isWhiteSpace_def

lemmas scoring_defs =
  countCorrect_def isCorrect_def indexOf_undef_def

lemma fiveQuestions_count: "countCorrect fiveQuestions fiveAnswers = 4"
  by (simp add: fiveQuestions_def fiveAnswers_def trueOrFalse_def scoring_defs string_ops)

text \<open>
  C1. The claim: the count of correct answers is the number of questions whose answer
  equals the correct answer after lower-casing and trimming, or, for a multiple-choice
  question with options, whose answer has the index in the options that the correct
  answer has. The code compares the index of the answer as typed in the options with the
  index of the lower-cased correct answer in the lower-cased options, for every question
  that has an options array, and two answers that are both missing from the options share
  the index \<open>-1\<close>. So a short-answer question with an empty options array counts any
  wrong answer as correct, and so does one whose options hold neither the answer as typed
  nor the correct answer: the answer \<open>Paris\<close> and the answer \<open>paris\<close> to a question whose
  correct answer is \<open>Rome\<close> are each counted, although neither equals \<open>Rome\<close>, the question
  is not multiple-choice, and \<open>paris\<close> has index 0 among the lower-cased options while
  \<open>rome\<close> has none.
\<close>

theorem countCorrect_counts_wrong_answer:
  "countCorrect [capitalOfItaly (Some [])] [''Paris''] = 1 \<and>
   countCorrect [capitalOfItaly (Some [''Paris'', ''London''])] [''paris''] = 1 \<and>
   trim (toLowerCase ''Paris'') \<noteq> trim (toLowerCase (correct_answer (capitalOfItaly os))) \<and>
   qtype (capitalOfItaly os) \<noteq> mcq \<and>
   indexOf (map toLowerCase [''Paris'', ''London'']) (toLowerCase ''paris'') = 0 \<and>
   indexOf (map toLowerCase [''Paris'', ''London''])
     (trim (toLowerCase (correct_answer (capitalOfItaly os)))) = - 1"
  by (simp add: capitalOfItaly_def scoring_defs string_ops)

lemma accuracyOf_range:
  assumes "0 < n" "c \<le> n" "n < 2 ^ 32" "accuracyOf c n = Some a"
  shows "0 \<le> a \<and> a \<le> 100"
proof -
  from accuracyOf_near[OF assms(1-3)] assms(4)
  have near: "\<bar>of_int a - 100 * of_nat c / of_nat n\<bar> \<le> (1 / 2 :: rat)" by simp
  have lo: "(0::rat) \<le> 100 * of_nat c / of_nat n" by simp
  have "(of_nat c :: rat) / of_nat n \<le> 1" using assms(1,2) by simp
  then have hi: "100 * of_nat c / of_nat n \<le> (100::rat)" by simp
  from near lo have "- (1 / 2 :: rat) \<le> of_int a" by linarith
  then have "(- 1 :: rat) < of_int a" by linarith
  then have "- 1 < a" by (metis of_int_less_iff of_int_minus of_int_1)
  moreover from near hi have "of_int a \<le> (100 + 1 / 2 :: rat)" by linarith
  then have "(of_int a :: rat) < 101" by linarith
  then have "a < 101" by (metis of_int_less_iff of_int_numeral)
  ultimately show ?thesis by simp
qed

lemma Math_round_0: "Math_round 0 = 0"
proof -
  have "\<lfloor>1 / 2 :: rat\<rfloor> = 0" by (rule floor_unique) simp_all
  then show ?thesis by (simp add: Math_round_def)
qed

lemma accuracyOf_0: "0 < n \<Longrightarrow> accuracyOf 0 n = Some 0"
  by (simp add: accuracyOf_def js_mul_def js_div_def toDouble_zero Math_round_0)

lemma fiveQuestions_none: "countCorrect fiveQuestions [] = 0"
  by (simp add: fiveQuestions_def trueOrFalse_def scoring_defs string_ops)

text \<open>
  C2. The verdict of a quiz result is strong exactly when its accuracy is at least 70,
  partial exactly when it is at least 40 and below 70, and weak exactly when it is below
  40; the accuracy of a quiz with at least one question is between 0 and 100; the
  thresholds are those of the comparison chain at every accuracy between 0 and 100; and
  a quiz of five questions with four correct answers has accuracy 80 and the verdict
  strong.
\<close>

theorem understanding_thresholds:
  "(accuracy (calculateQuizResults qs ans) = Some a \<longrightarrow>
      (understanding (calculateQuizResults qs ans) = strong \<longleftrightarrow> 70 \<le> a) \<and>
      (understanding (calculateQuizResults qs ans) = partial \<longleftrightarrow> 40 \<le> a \<and> a < 70) \<and>
      (understanding (calculateQuizResults qs ans) = weak \<longleftrightarrow> a < 40)) \<and>
   (qs \<noteq> [] \<and> length qs < 2 ^ 32 \<longrightarrow>
      (\<exists>a. accuracy (calculateQuizResults qs ans) = Some a \<and> 0 \<le> a \<and> a \<le> 100)) \<and>
   (0 \<le> b \<and> b \<le> 100 \<longrightarrow>
      (understandingOf (Some b) = strong \<longleftrightarrow> 70 \<le> b) \<and>
      (understandingOf (Some b) = partial \<longleftrightarrow> 40 \<le> b \<and> b < 70) \<and>
      (understandingOf (Some b) = weak \<longleftrightarrow> b < 40)) \<and>
   (length qs = 5 \<and> countCorrect qs ans = 4 \<longrightarrow>
      correctCount (calculateQuizResults qs ans) = 4 \<and>
      totalQuestions (calculateQuizResults qs ans) = 5 \<and>
      accuracy (calculateQuizResults qs ans) = Some 80 \<and>
      understanding (calculateQuizResults qs ans) = strong)"
proof -
  have u: "understanding (calculateQuizResults qs ans)
             = understandingOf (accuracy (calculateQuizResults qs ans))"
    by (simp add: calculateQuizResults_def Let_def)
  have acc: "accuracy (calculateQuizResults qs ans) = accuracyOf (countCorrect qs ans) (length qs)"
    by (simp add: calculateQuizResults_def Let_def)
  have 1: "accuracy (calculateQuizResults qs ans) = Some a \<longrightarrow>
      (understanding (calculateQuizResults qs ans) = strong \<longleftrightarrow> 70 \<le> a) \<and>
      (understanding (calculateQuizResults qs ans) = partial \<longleftrightarrow> 40 \<le> a \<and> a < 70) \<and>
      (understanding (calculateQuizResults qs ans) = weak \<longleftrightarrow> a < 40)"
    unfolding u by (simp add: understandingOf_def js_ge_def)
  have 2: "qs \<noteq> [] \<and> length qs < 2 ^ 32 \<longrightarrow>
      (\<exists>a. accuracy (calculateQuizResults qs ans) = Some a \<and> 0 \<le> a \<and> a \<le> 100)"
  proof
    assume h: "qs \<noteq> [] \<and> length qs < 2 ^ 32"
    then have n: "0 < length qs" and b: "length qs < 2 ^ 32" by simp_all
    from accuracyOf_near[OF n countCorrect_le_length b]
    obtain a' where a': "accuracyOf (countCorrect qs ans) (length qs) = Some a'" by blast
    from accuracyOf_range[OF n countCorrect_le_length b a'] a' acc
    show "\<exists>a. accuracy (calculateQuizResults qs ans) = Some a \<and> 0 \<le> a \<and> a \<le> 100"
      by simp
  qed
  have 3: "0 \<le> b \<and> b \<le> 100 \<longrightarrow>
      (understandingOf (Some b) = strong \<longleftrightarrow> 70 \<le> b) \<and>
      (understandingOf (Some b) = partial \<longleftrightarrow> 40 \<le> b \<and> b < 70) \<and>
      (understandingOf (Some b) = weak \<longleftrightarrow> b < 40)"
    by (simp add: understandingOf_def js_ge_def)
  have 4: "length qs = 5 \<and> countCorrect qs ans = 4 \<longrightarrow>
      correctCount (calculateQuizResults qs ans) = 4 \<and>
      totalQuestions (calculateQuizResults qs ans) = 5 \<and>
      accuracy (calculateQuizResults qs ans) = Some 80 \<and>
      understanding (calculateQuizResults qs ans) = strong"
    by (simp add: calculateQuizResults_def Let_def accuracyOf_4_5 understandingOf_def js_ge_def)
  from 1 2 3 4 show ?thesis by blast
qed

theorem understanding_thresholds_witness:
  "accuracy (calculateQuizResults fiveQuestions fiveAnswers) = Some 80 \<and>
   understanding (calculateQuizResults fiveQuestions fiveAnswers) = strong \<and>
   correctCount (calculateQuizResults fiveQuestions fiveAnswers) = 4 \<and>
   totalQuestions (calculateQuizResults fiveQuestions fiveAnswers) = 5 \<and>
   accuracy (calculateQuizResults fiveQuestions []) = Some 0 \<and>
   understanding (calculateQuizResults fiveQuestions []) = weak \<and>
   understandingOf (Some 69) = partial"
proof -
  have l: "length fiveQuestions = 5" by (simp add: fiveQuestions_def)
  have a0: "accuracy (calculateQuizResults fiveQuestions []) = Some 0"
    by (simp add: calculateQuizResults_def Let_def fiveQuestions_none l accuracyOf_0)
  from understanding_thresholds[of fiveQuestions fiveAnswers 80 69] l fiveQuestions_count
  have A: "accuracy (calculateQuizResults fiveQuestions fiveAnswers) = Some 80 \<and>
           understanding (calculateQuizResults fiveQuestions fiveAnswers) = strong \<and>
           correctCount (calculateQuizResults fiveQuestions fiveAnswers) = 4 \<and>
           totalQuestions (calculateQuizResults fiveQuestions fiveAnswers) = 5 \<and>
           understandingOf (Some 69) = partial"
    by simp
  from understanding_thresholds[of fiveQuestions "[]" 0 0] a0
  have B: "understanding (calculateQuizResults fiveQuestions []) = weak" by simp
  from A B a0 show ?thesis by simp
qed


lemma Math_round_tie: "Math_round (100 * 23 / 40) = 58"
  by code_simp





text \<open>
  C9. For a fixed list of questions, appending to the answers one more answer that is
  correct for the question it answers never lowers the count of correct answers. (An
  answer appended beyond the last question is not looked at.)
\<close>

theorem countCorrect_append_correct_mono:
  assumes "length ans < length qs \<Longrightarrow> isCorrect (qs ! length ans) (Some a)"
  shows "countCorrect qs ans \<le> countCorrect qs (ans @ [a])"
proof -
  have "{j. j < length qs \<and> isCorrect (qs ! j) (elemAt ans j)}
        \<subseteq> {j. j < length qs \<and> isCorrect (qs ! j) (elemAt (ans @ [a]) j)}"
  proof
    fix j
    assume "j \<in> {j. j < length qs \<and> isCorrect (qs ! j) (elemAt ans j)}"
    then have j: "j < length qs" and c: "isCorrect (qs ! j) (elemAt ans j)" by simp_all
    have "isCorrect (qs ! j) (elemAt (ans @ [a]) j)"
    proof (cases "j = length ans")
      case True
      with j assms show ?thesis by (simp add: elemAt_append_last)
    next
      case False
      with c show ?thesis by (simp add: elemAt_append_other)
    qed
    with j show "j \<in> {j. j < length qs \<and> isCorrect (qs ! j) (elemAt (ans @ [a]) j)}"
      by simp
  qed
  then show ?thesis
    unfolding countCorrect_card by (intro card_mono) simp_all
qed

theorem countCorrect_append_correct_mono_witness:
  "isCorrect (fiveQuestions ! length [''True'']) (Some '' FALSE '') \<and>
   countCorrect fiveQuestions [''True''] \<le> countCorrect fiveQuestions ([''True''] @ ['' FALSE ''])"
proof -
  have c: "isCorrect (fiveQuestions ! length [''True'']) (Some '' FALSE '')"
    by (simp add: fiveQuestions_def trueOrFalse_def isCorrect_def string_ops)
  from countCorrect_append_correct_mono[of "[''True'']" fiveQuestions "'' FALSE ''"] c
  show ?thesis by blast
qed

section \<open>Properties of the session analysis\<close>

lemma foldl_insert_set:
  "set (foldl (\<lambda>s x. if x \<in> set s then s else s @ [x]) acc xs) = set acc \<union> set xs"
  by (induction xs arbitrary: acc) auto

lemma foldl_insert_distinct:
  "distinct acc \<Longrightarrow> distinct (foldl (\<lambda>s x. if x \<in> set s then s else s @ [x]) acc xs)"
  by (induction xs arbitrary: acc) auto

lemma set_spreadSet: "set (spreadSet xs) = set xs"
  by (simp add: spreadSet_def foldl_insert_set)

lemma distinct_spreadSet: "distinct (spreadSet xs)"
  by (simp add: spreadSet_def foldl_insert_distinct)

text \<open>
  C5. An assistant turn that reports a session analysis leaves the weak areas, the strong
  areas and the topics covered each holding exactly the elements held before together
  with the newly reported ones, without repetition, and leaves the current understanding
  at the reported value if there is one and at the prior value otherwise.
\<close>

theorem getAIResponse_merges:
  "set (weakAreas (getAIResponse (ChatData (Some sa)) prev))
     = set (weakAreas prev) \<union> set (orEmpty (sa_weakAreas sa)) \<and>
   distinct (weakAreas (getAIResponse (ChatData (Some sa)) prev)) \<and>
   set (strongAreas (getAIResponse (ChatData (Some sa)) prev))
     = set (strongAreas prev) \<union> set (orEmpty (sa_strongAreas sa)) \<and>
   distinct (strongAreas (getAIResponse (ChatData (Some sa)) prev)) \<and>
   set (topicsCovered (getAIResponse (ChatData (Some sa)) prev))
     = set (topicsCovered prev) \<union> set (orEmpty (sa_topics sa)) \<and>
   distinct (topicsCovered (getAIResponse (ChatData (Some sa)) prev)) \<and>
   currentUnderstanding (getAIResponse (ChatData (Some sa)) prev)
     = (case sa_understanding sa of Some u \<Rightarrow> u | None \<Rightarrow> currentUnderstanding prev)"
  by (simp add: getAIResponse_def mergeAnalysis_def set_spreadSet distinct_spreadSet)

theorem getAIResponse_merges_witness:
  "set (weakAreas (getAIResponse
          (ChatData (Some \<lparr>sa_weakAreas = Some [''algebra'', ''optics''], sa_strongAreas = None,
                            sa_understanding = None, sa_topics = Some [''optics'']\<rparr>))
          \<lparr>weakAreas = [''optics''], strongAreas = [''history''],
           currentUnderstanding = Good, topicsCovered = []\<rparr>))
     = {''optics'', ''algebra''} \<and>
   currentUnderstanding (getAIResponse
          (ChatData (Some \<lparr>sa_weakAreas = Some [''algebra'', ''optics''], sa_strongAreas = None,
                            sa_understanding = None, sa_topics = Some [''optics'']\<rparr>))
          \<lparr>weakAreas = [''optics''], strongAreas = [''history''],
           currentUnderstanding = Good, topicsCovered = []\<rparr>) = Good"
  using getAIResponse_merges
    [of "\<lparr>sa_weakAreas = Some [''algebra'', ''optics''], sa_strongAreas = None,
          sa_understanding = None, sa_topics = Some [''optics'']\<rparr>"
        "\<lparr>weakAreas = [''optics''], strongAreas = [''history''],
          currentUnderstanding = Good, topicsCovered = []\<rparr>"]
  by (auto simp: orEmpty_def)

lemma getAIResponse_grows:
  "set (weakAreas a) \<subseteq> set (weakAreas (getAIResponse r a)) \<and>
   set (strongAreas a) \<subseteq> set (strongAreas (getAIResponse r a)) \<and>
   set (topicsCovered a) \<subseteq> set (topicsCovered (getAIResponse r a))"
  by (auto simp: getAIResponse_def mergeAnalysis_def set_spreadSet
      split: chatResponse.splits option.splits)

text \<open>
  C6. Over any sequence of assistant turns, from any analysis state, every weak area,
  strong area and topic present before the turns is present after them: the three sets
  never shrink.
\<close>

theorem assistantTurns_never_shrink:
  "set (weakAreas a) \<subseteq> set (weakAreas (assistantTurns rs a)) \<and>
   set (strongAreas a) \<subseteq> set (strongAreas (assistantTurns rs a)) \<and>
   set (topicsCovered a) \<subseteq> set (topicsCovered (assistantTurns rs a))"
proof (induction rs arbitrary: a)
  case Nil
  show ?case by (simp add: assistantTurns_def)
next
  case (Cons r rs)
  have step: "assistantTurns (r # rs) a = assistantTurns rs (getAIResponse r a)"
    by (simp add: assistantTurns_def)
  from Cons.IH[of "getAIResponse r a"] getAIResponse_grows[of a r]
  show ?case unfolding step by blast
qed

theorem assistantTurns_never_shrink_witness:
  "''optics'' \<in> set (weakAreas (assistantTurns
       [ChatError, ChatData None,
        ChatData (Some \<lparr>sa_weakAreas = Some [''algebra''], sa_strongAreas = None,
                          sa_understanding = Some Weak, sa_topics = None\<rparr>)]
       \<lparr>weakAreas = [''optics''], strongAreas = [], currentUnderstanding = Good,
        topicsCovered = []\<rparr>))"
  using assistantTurns_never_shrink
    [of "\<lparr>weakAreas = [''optics''], strongAreas = [], currentUnderstanding = Good,
          topicsCovered = []\<rparr>"
        "[ChatError, ChatData None,
          ChatData (Some \<lparr>sa_weakAreas = Some [''algebra''], sa_strongAreas = None,
                            sa_understanding = Some Weak, sa_topics = None\<rparr>)]"]
  by auto


section \<open>Properties of quiz mode\<close>

lemma generatedQuiz_nonempty: "generatedQuiz r = Some qs \<Longrightarrow> qs \<noteq> []"
  by (auto simp: generatedQuiz_def split: invokeResult.splits option.splits if_splits)

lemma currentQuestion_Some:
  "currentQuestion s = Some q \<Longrightarrow>
     isQuizMode s \<and> \<not> showResult s \<and> currentQuestionIndex s < length (quizQuestions s)"
  by (auto simp: currentQuestion_def elemAt_nth split: if_splits)

lemma quizInvariant_initial: "quizInvariant initialState"
  by (simp add: quizInvariant_def initialState_def)

lemma quizInvariant_step:
  assumes "quizInvariant s"
  shows "quizInvariant (fst (step e s))"
proof (cases e)
  case (ClickEndStudy elapsed r)
  show ?thesis
  proof (cases "generatedQuiz r")
    case None
    with assms ClickEndStudy show ?thesis
      by (simp add: quizInvariant_def handleEndStudyClick_def)
  next
    case (Some qs)
    with generatedQuiz_nonempty[OF Some] assms ClickEndStudy show ?thesis
      by (simp add: quizInvariant_def handleEndStudyClick_def)
  qed
next
  case (ClickOption opt)
  show ?thesis
  proof (cases "currentQuestion s")
    case None
    with assms ClickOption show ?thesis by simp
  next
    case (Some q)
    with currentQuestion_Some[OF Some] assms ClickOption show ?thesis
      by (simp add: quizInvariant_def handleQuizAnswer_def)
  qed
next
  case (ChangeInput v)
  show ?thesis
  proof (cases "currentQuestion s")
    case None
    with assms ChangeInput show ?thesis by simp
  next
    case (Some q)
    with assms ChangeInput show ?thesis
      by (simp add: quizInvariant_def)
  qed
next
  case SubmitInput
  show ?thesis
  proof (cases "currentQuestion s")
    case None
    with assms SubmitInput show ?thesis by simp
  next
    case (Some q)
    with currentQuestion_Some[OF Some] assms SubmitInput show ?thesis
      by (simp add: quizInvariant_def handleQuizAnswer_def split: option.splits)
  qed
next
  case (ClickNext elapsed)
  show ?thesis
  proof (cases "currentQuestion s")
    case None
    with assms ClickNext show ?thesis by simp
  next
    case (Some q)
    with currentQuestion_Some[OF Some] assms ClickNext show ?thesis
      by (auto simp: quizInvariant_def handleNextQuestion_def calculateQuizResults_handler_def
          Let_def)
  qed
qed

lemma run_snoc: "run (evs @ [e]) s = fst (step e (run evs s))"
  by (simp add: run_def)

lemma quizInvariant_run: "quizInvariant (run evs initialState)"
proof (induction evs rule: rev_induct)
  case Nil
  show ?case by (simp add: run_def quizInvariant_initial)
next
  case (snoc e evs)
  then show ?case by (simp only: run_snoc quizInvariant_step)
qed

lemma step_answers:
  assumes "quizInvariant s"
  shows "userAnswers (fst (step e s)) = userAnswers s \<or>
         (\<exists>a. userAnswers (fst (step e s)) = userAnswers s @ [a] \<and>
              length (userAnswers s) = currentQuestionIndex s)"
proof (cases e)
  case (ClickEndStudy elapsed r)
  with assms show ?thesis
    by (auto simp: quizInvariant_def handleEndStudyClick_def split: option.splits if_splits)
next
  case (ClickOption opt)
  show ?thesis
  proof (cases "currentQuestion s")
    case None
    with ClickOption show ?thesis by simp
  next
    case (Some q)
    with currentQuestion_Some[OF Some] assms ClickOption show ?thesis
      by (simp add: quizInvariant_def handleQuizAnswer_def)
  qed
next
  case (ChangeInput v)
  then show ?thesis by (simp split: option.splits)
next
  case SubmitInput
  show ?thesis
  proof (cases "currentQuestion s")
    case None
    with SubmitInput show ?thesis by simp
  next
    case (Some q)
    with currentQuestion_Some[OF Some] assms SubmitInput show ?thesis
      by (simp add: quizInvariant_def handleQuizAnswer_def split: option.splits)
  qed
next
  case (ClickNext elapsed)
  then show ?thesis
    by (simp add: handleNextQuestion_def calculateQuizResults_handler_def Let_def
        split: option.splits)
qed

lemma accepted_index:
  assumes "quizInvariant s" "currentQuestion s = Some q" "\<not> showExplanation s"
  shows "length (userAnswers s) = currentQuestionIndex s"
  using assms currentQuestion_Some[OF assms(2)] by (simp add: quizInvariant_def)

text \<open>
  C7. In every state the component reaches from its initial state by the events of quiz
  mode, the answers are no more than the questions and no more than one per question
  reached so far, and an event either leaves the answers as they are or appends exactly
  one answer. \<open>handleQuizAnswer\<close> appends its argument. A click on an option the current
  question offers, or the submission of a non-empty typed answer, while no explanation is
  showing, appends exactly that answer, at the index of the current question, and shows
  the explanation; while the explanation is showing, a click or a submission leaves the
  answers as they are.
\<close>

theorem answers_never_exceed_questions:
  "length (userAnswers (run evs initialState)) \<le> length (quizQuestions (run evs initialState)) \<and>
   length (userAnswers (run evs initialState)) \<le> currentQuestionIndex (run evs initialState) + 1 \<and>
   (userAnswers (fst (step e (run evs initialState))) = userAnswers (run evs initialState) \<or>
    (\<exists>a. userAnswers (fst (step e (run evs initialState)))
            = userAnswers (run evs initialState) @ [a] \<and>
          length (userAnswers (run evs initialState))
            = currentQuestionIndex (run evs initialState))) \<and>
   userAnswers (handleQuizAnswer answer s) = userAnswers s @ [answer] \<and>
   (currentQuestion (run evs initialState) = Some q \<and> offersOption q opt \<and>
    \<not> showExplanation (run evs initialState) \<longrightarrow>
      userAnswers (fst (step (ClickOption opt) (run evs initialState)))
        = userAnswers (run evs initialState) @ [opt] \<and>
      length (userAnswers (run evs initialState)) = currentQuestionIndex (run evs initialState) \<and>
      showExplanation (fst (step (ClickOption opt) (run evs initialState)))) \<and>
   (currentQuestion (run evs initialState) = Some q \<and> hasTextInput q \<and>
    \<not> showExplanation (run evs initialState) \<and>
    selectedOption (run evs initialState) = Some v \<and> v \<noteq> '''' \<longrightarrow>
      userAnswers (fst (step SubmitInput (run evs initialState)))
        = userAnswers (run evs initialState) @ [v] \<and>
      length (userAnswers (run evs initialState)) = currentQuestionIndex (run evs initialState) \<and>
      showExplanation (fst (step SubmitInput (run evs initialState)))) \<and>
   (showExplanation (run evs initialState) \<longrightarrow>
      userAnswers (fst (step (ClickOption opt) (run evs initialState)))
        = userAnswers (run evs initialState) \<and>
      userAnswers (fst (step SubmitInput (run evs initialState)))
        = userAnswers (run evs initialState))"
proof -
  define t where "t = run evs initialState"
  have inv: "quizInvariant t" unfolding t_def by (rule quizInvariant_run)
  have 1: "length (userAnswers t) \<le> length (quizQuestions t)"
    using inv by (auto simp: quizInvariant_def split: if_splits)
  have 2: "length (userAnswers t) \<le> currentQuestionIndex t + 1"
    using inv by (auto simp: quizInvariant_def split: if_splits)
  have 3: "userAnswers (fst (step e t)) = userAnswers t \<or>
           (\<exists>a. userAnswers (fst (step e t)) = userAnswers t @ [a] \<and>
                length (userAnswers t) = currentQuestionIndex t)"
    by (rule step_answers[OF inv])
  have 4: "userAnswers (handleQuizAnswer answer s) = userAnswers s @ [answer]"
    by (simp add: handleQuizAnswer_def)
  have 5: "currentQuestion t = Some q \<and> offersOption q opt \<and> \<not> showExplanation t \<longrightarrow>
      userAnswers (fst (step (ClickOption opt) t)) = userAnswers t @ [opt] \<and>
      length (userAnswers t) = currentQuestionIndex t \<and>
      showExplanation (fst (step (ClickOption opt) t))"
  proof
    assume h: "currentQuestion t = Some q \<and> offersOption q opt \<and> \<not> showExplanation t"
    then have "length (userAnswers t) = currentQuestionIndex t"
      using accepted_index[OF inv] by blast
    with h show "userAnswers (fst (step (ClickOption opt) t)) = userAnswers t @ [opt] \<and>
      length (userAnswers t) = currentQuestionIndex t \<and>
      showExplanation (fst (step (ClickOption opt) t))"
      by (simp add: handleQuizAnswer_def)
  qed
  have 6: "currentQuestion t = Some q \<and> hasTextInput q \<and> \<not> showExplanation t \<and>
           selectedOption t = Some v \<and> v \<noteq> '''' \<longrightarrow>
      userAnswers (fst (step SubmitInput t)) = userAnswers t @ [v] \<and>
      length (userAnswers t) = currentQuestionIndex t \<and>
      showExplanation (fst (step SubmitInput t))"
  proof
    assume h: "currentQuestion t = Some q \<and> hasTextInput q \<and> \<not> showExplanation t \<and>
           selectedOption t = Some v \<and> v \<noteq> ''''"
    then have "length (userAnswers t) = currentQuestionIndex t"
      using accepted_index[OF inv] by blast
    with h show "userAnswers (fst (step SubmitInput t)) = userAnswers t @ [v] \<and>
      length (userAnswers t) = currentQuestionIndex t \<and>
      showExplanation (fst (step SubmitInput t))"
      by (simp add: handleQuizAnswer_def)
  qed
  have 7: "showExplanation t \<longrightarrow>
      userAnswers (fst (step (ClickOption opt) t)) = userAnswers t \<and>
      userAnswers (fst (step SubmitInput t)) = userAnswers t"
    by (simp split: option.splits)
  from 1 2 3 4 5 6 7 show ?thesis unfolding t_def by blast
qed

text \<open>
  C4. When the study session is ended and quiz generation fails, or reports no success,
  or gives no question list or an empty one, quiz mode is not entered and the session
  ends at once: the summary handed over holds the topic, the time spent, the messages and
  the analysis, and no quiz result.
\<close>

theorem handleEndStudyClick_without_quiz:
  assumes "r = InvokeError \<or> r = InvokeData None \<or>
           (\<exists>d. r = InvokeData (Some d) \<and>
                (\<not> data_success d \<or> data_questions d = None \<or> data_questions d = Some []))"
  shows "handleEndStudyClick elapsed r s =
           (s\<lparr>quizLoading := False\<rparr>,
            Some \<lparr>summary_topic = topicOf s, timeSpent = timeSpentOf elapsed,
                  summary_messages = messages s, summary_analysis = analysis s,
                  quizResult = None\<rparr>)"
proof -
  have "generatedQuiz r = None"
    using assms by (auto simp: generatedQuiz_def split: option.splits)
  then show ?thesis
    by (simp add: handleEndStudyClick_def finishStudySession_def)
qed

theorem handleEndStudyClick_without_quiz_witness:
  "handleEndStudyClick 90000
     (InvokeData (Some \<lparr>data_success = True, data_questions = Some []\<rparr>)) initialState =
     (initialState\<lparr>quizLoading := False\<rparr>,
      Some \<lparr>summary_topic = topicOf initialState, timeSpent = timeSpentOf 90000,
            summary_messages = messages initialState, summary_analysis = analysis initialState,
            quizResult = None\<rparr>)"
  using handleEndStudyClick_without_quiz
    [of "InvokeData (Some \<lparr>data_success = True, data_questions = Some []\<rparr>)" 90000 initialState]
  by simp

lemma run_quizOfFive:
  "run [quizOfFive] initialState =
     initialState\<lparr>quizQuestions := fiveQuestions, isQuizMode := True, currentQuestionIndex := 0,
       userAnswers := [], messages := [Greeting, QuizIntro 5], quizLoading := False\<rparr>"
  by (simp add: run_def quizOfFive_def handleEndStudyClick_def generatedQuiz_def
      initialState_def fiveQuestions_def)

theorem answers_never_exceed_questions_witness:
  "currentQuestion (run [quizOfFive] initialState) = Some (trueOrFalse 1 ''true'') \<and>
   offersOption (trueOrFalse 1 ''true'') ''True'' \<and>
   \<not> showExplanation (run [quizOfFive] initialState) \<and>
   userAnswers (run [quizOfFive, ClickOption ''True''] initialState) = [''True''] \<and>
   userAnswers (run [quizOfFive, ClickOption ''True'', ClickOption ''False''] initialState)
     = [''True''] \<and>
   length (userAnswers (run [quizOfFive, ClickOption ''True'', ClickOption ''False''] initialState))
     \<le> length (quizQuestions
           (run [quizOfFive, ClickOption ''True'', ClickOption ''False''] initialState))"
proof -
  have cq: "currentQuestion (run [quizOfFive] initialState) = Some (trueOrFalse 1 ''true'')"
    unfolding run_quizOfFive by (simp add: currentQuestion_def initialState_def fiveQuestions_def)
  have off: "offersOption (trueOrFalse 1 ''true'') ''True''"
    by (simp add: offersOption_def trueOrFalse_def)
  have nse: "\<not> showExplanation (run [quizOfFive] initialState)"
    unfolding run_quizOfFive by (simp add: initialState_def)
  have ua0: "userAnswers (run [quizOfFive] initialState) = []"
    unfolding run_quizOfFive by simp
  have r1: "run [quizOfFive, ClickOption ''True''] initialState
              = fst (step (ClickOption ''True'') (run [quizOfFive] initialState))"
    using run_snoc[of "[quizOfFive]" "ClickOption ''True''" initialState] by simp
  have r2: "run [quizOfFive, ClickOption ''True'', ClickOption ''False''] initialState
              = fst (step (ClickOption ''False'') (run [quizOfFive, ClickOption ''True''] initialState))"
    using run_snoc[of "[quizOfFive, ClickOption ''True'']" "ClickOption ''False''" initialState]
    by simp
  from answers_never_exceed_questions
    [of "[quizOfFive]" _ _ _ "trueOrFalse 1 ''true''" "''True''"] cq off nse
  have a1: "userAnswers (fst (step (ClickOption ''True'') (run [quizOfFive] initialState)))
              = userAnswers (run [quizOfFive] initialState) @ [''True'']"
    and se: "showExplanation (fst (step (ClickOption ''True'') (run [quizOfFive] initialState)))"
    by blast+
  from a1 have u1: "userAnswers (run [quizOfFive, ClickOption ''True''] initialState) = [''True'']"
    by (simp only: r1 ua0 append_Nil)
  from se have se1: "showExplanation (run [quizOfFive, ClickOption ''True''] initialState)"
    by (simp only: r1)
  from answers_never_exceed_questions
    [of "[quizOfFive, ClickOption ''True'']" _ _ _ _ "''False''"] se1
  have "userAnswers (fst (step (ClickOption ''False'')
            (run [quizOfFive, ClickOption ''True''] initialState)))
          = userAnswers (run [quizOfFive, ClickOption ''True''] initialState)"
    by blast
  then have u2: "userAnswers (run [quizOfFive, ClickOption ''True'', ClickOption ''False'']
                   initialState) = [''True'']"
    by (simp only: r2 u1)
  from answers_never_exceed_questions
    [of "[quizOfFive, ClickOption ''True'', ClickOption ''False'']"]
  have le: "length (userAnswers
               (run [quizOfFive, ClickOption ''True'', ClickOption ''False''] initialState))
          \<le> length (quizQuestions
               (run [quizOfFive, ClickOption ''True'', ClickOption ''False''] initialState))"
    by blast
  from cq off nse u1 u2 le show ?thesis by blast
qed

section \<open>Properties of the approval endpoint\<close>

lemmas handler_defs =
  handler_def requiredFields_def truthy_def maybeSingle_def schoolsMatching_def
  studentsWithId_def failure_def succeeded_def approveUpdate_def rejectUpdate_def
  reasonOf_def

lemmas sample_defs =
  sampleDatabase_def sampleBackend_def approvalRequest_def post_def

text \<open>
  C8. The claim: every approval request whose school identifier and password match no
  stored school is answered with status 401 and \<open>success = false\<close>, and no student is
  changed. The handler validates the request before it looks at the credentials: a
  request with a wrong password and no student identifier is answered with status 400.
\<close>

theorem handler_wrong_password_missing_student_counterexample:
  "schoolsMatching ''SCH001'' ''wrong'' sampleDatabase = [] \<and>
   http_status (fst (handler sampleBackend ''2025-01-01T00:00:00.000Z''
       (post (approvalRequest ''approve'' ''wrong'' None None)) sampleDatabase)) = 400 \<and>
   http_status (fst (handler sampleBackend ''2025-01-01T00:00:00.000Z''
       (post (approvalRequest ''approve'' ''wrong'' None None)) sampleDatabase)) \<noteq> 401"
  by (simp add: handler_defs sample_defs)

text \<open>
  C8, amended. For every request other than the preflight whose body carries the four
  required fields with non-empty values, when the backend is configured and the school
  query itself does not fail: if no stored school has the school identifier and the
  password of the request, the answer is status 401 with \<open>success = false\<close> and the error
  \<open>Invalid school credentials\<close>, and the database is left as it was.
\<close>

theorem handler_rejects_unknown_credentials:
  assumes "req_method req \<noteq> ''OPTIONS''"
    and "req_body req = JsonObject b"
    and "requiredFields b = Some (act, sid, pw, stu)"
    and "configured be"
    and "\<not> schoolLookupFails be"
    and "schoolsMatching sid pw db = []"
  shows "handler be now req db =
           (\<lparr>http_status = 401,
             json = Some \<lparr>success = False, status = None,
                          error = Some ''Invalid school credentials''\<rparr>\<rparr>, db)"
  using assms by (simp add: handler_def maybeSingle_def failure_def)

lemma requiredFields_Some:
  "requiredFields b = Some (act, sid, pw, stu) \<Longrightarrow>
     action b = Some act \<and> schoolId b = Some sid \<and> schoolPassword b = Some pw \<and>
     studentId b = Some stu \<and> act \<noteq> '''' \<and> sid \<noteq> '''' \<and> pw \<noteq> '''' \<and> stu \<noteq> ''''"
  by (auto simp: requiredFields_def truthy_def split: option.splits if_splits)

theorem handler_rejects_unknown_credentials_witness:
  "handler sampleBackend ''2025-01-01T00:00:00.000Z''
       (post (approvalRequest ''approve'' ''wrong'' (Some ''st-1'') None)) sampleDatabase =
     (\<lparr>http_status = 401,
       json = Some \<lparr>success = False, status = None,
                    error = Some ''Invalid school credentials''\<rparr>\<rparr>, sampleDatabase)"
proof -
  have 1: "req_method (post (approvalRequest ''approve'' ''wrong'' (Some ''st-1'') None)) \<noteq> ''OPTIONS''"
    by (simp add: post_def)
  have 2: "req_body (post (approvalRequest ''approve'' ''wrong'' (Some ''st-1'') None))
             = JsonObject (approvalRequest ''approve'' ''wrong'' (Some ''st-1'') None)"
    by (simp add: post_def)
  have 3: "requiredFields (approvalRequest ''approve'' ''wrong'' (Some ''st-1'') None)
             = Some (''approve'', ''SCH001'', ''wrong'', ''st-1'')"
    by (simp add: requiredFields_def truthy_def approvalRequest_def)
  have 4: "configured sampleBackend" "\<not> schoolLookupFails sampleBackend"
    by (simp_all add: sampleBackend_def)
  have 5: "schoolsMatching ''SCH001'' ''wrong'' sampleDatabase = []"
    by (simp add: schoolsMatching_def sampleDatabase_def)
  show ?thesis
    by (rule handler_rejects_unknown_credentials[OF 1 2 3 4 5])
qed

lemma maybeSingle_Some: "maybeSingle f rows = Inr (Some r) \<Longrightarrow> rows = [r]"
  by (auto simp: maybeSingle_def split: if_splits list.splits)

lemma handler_success_cases:
  assumes h: "handler be now req db = (resp, db')"
    and b: "req_body req = JsonObject b"
    and ok: "json resp = Some body" "success body"
  shows "\<exists>act sid pw stu student.
           requiredFields b = Some (act, sid, pw, stu) \<and>
           studentsWithId stu db = [student] \<and>
           (if act = ''approve''
            then resp = succeeded ''approved'' \<and>
                 db' = db\<lparr>students := approveUpdate now stu (students db)\<rparr>
            else resp = succeeded ''rejected'' \<and>
                 db' = db\<lparr>students := rejectUpdate (reasonOf b) stu (students db)\<rparr>)"
proof (cases "req_method req = ''OPTIONS''")
  case True
  with h ok show ?thesis by (auto simp: handler_def)
next
  case notOptions: False
  show ?thesis
  proof (cases "requiredFields b")
    case None
    with h b ok notOptions show ?thesis by (auto simp: handler_def failure_def)
  next
    case (Some f)
    obtain act sid pw stu where f: "f = (act, sid, pw, stu)" by (cases f) auto
    show ?thesis
    proof (cases "maybeSingle (schoolLookupFails be) (schoolsMatching sid pw db)")
      case (Inl u)
      with h b ok notOptions Some f show ?thesis
        by (auto simp: handler_def failure_def split: if_splits)
    next
      case (Inr sch)
      show ?thesis
      proof (cases sch)
        case None
        with h b ok notOptions Some f Inr show ?thesis
          by (auto simp: handler_def failure_def split: if_splits)
      next
        case school: (Some school)
        show ?thesis
        proof (cases "maybeSingle (studentLookupFails be) (studentsWithId stu db)")
          case (Inl u)
          with h b ok notOptions Some f Inr school show ?thesis
            by (auto simp: handler_def failure_def split: if_splits)
        next
          case stuR: (Inr st)
          show ?thesis
          proof (cases st)
            case None
            with h b ok notOptions Some f Inr school stuR show ?thesis
              by (auto simp: handler_def failure_def split: if_splits)
          next
            case student: (Some student)
            have one: "studentsWithId stu db = [student]"
              using stuR student by (simp add: maybeSingle_Some)
            from h b ok notOptions Some f Inr school stuR student
            have "if act = ''approve''
                  then resp = succeeded ''approved'' \<and>
                       db' = db\<lparr>students := approveUpdate now stu (students db)\<rparr>
                  else resp = succeeded ''rejected'' \<and>
                       db' = db\<lparr>students := rejectUpdate (reasonOf b) stu (students db)\<rparr>"
              by (auto simp: handler_def failure_def split: if_splits)
            with Some f one show ?thesis by blast
          qed
        qed
      qed
    qed
  qed
qed

lemma studentsWithId_member:
  "studentsWithId stu db = [student] \<Longrightarrow> student \<in> set (students db) \<and> student_pk student = stu"
proof -
  assume a: "studentsWithId stu db = [student]"
  have "student \<in> set (studentsWithId stu db)" by (simp add: a)
  then show ?thesis by (simp add: studentsWithId_def)
qed

lemma approveUpdate_pk: "map student_pk (approveUpdate now stu rows) = map student_pk rows"
  by (induction rows) (simp_all add: approveUpdate_def)

lemma rejectUpdate_pk: "map student_pk (rejectUpdate reason stu rows) = map student_pk rows"
  by (induction rows) (simp_all add: rejectUpdate_def)

lemma approveUpdate_rows:
  assumes "r \<in> set (approveUpdate now stu rows)" "student_pk r = stu"
  shows "is_approved r \<and> approved_at r = Some now \<and> rejection_reason r = None"
proof -
  from assms(1) obtain x where
    r: "r = (if student_pk x = stu
             then x\<lparr>is_approved := True, approved_at := Some now, rejection_reason := None\<rparr>
             else x)"
    unfolding approveUpdate_def set_map by (rule imageE)
  show ?thesis
  proof (cases "student_pk x = stu")
    case True
    with r show ?thesis by simp
  next
    case False
    with r assms(2) show ?thesis by simp
  qed
qed

lemma rejectUpdate_rows:
  assumes "r \<in> set (rejectUpdate reason stu rows)" "student_pk r = stu"
  shows "\<not> is_approved r \<and> rejection_reason r = Some reason"
proof -
  from assms(1) obtain x where
    r: "r = (if student_pk x = stu
             then x\<lparr>is_approved := False, rejection_reason := Some reason\<rparr>
             else x)"
    unfolding rejectUpdate_def set_map by (rule imageE)
  show ?thesis
  proof (cases "student_pk x = stu")
    case True
    with r show ?thesis by simp
  next
    case False
    with r assms(2) show ?thesis by simp
  qed
qed

lemma pk_member: "(\<exists>r \<in> set rows. student_pk r = stu) \<longleftrightarrow> stu \<in> set (map student_pk rows)"
  by auto

lemma reasonOf_cases:
  "reasonOf b =
     (case rejectionReason b of
        None \<Rightarrow> ''No reason provided''
      | Some t \<Rightarrow> if t = '''' then ''No reason provided'' else trim t)"
proof -
  have "trim ''No reason provided'' = ''No reason provided''"
    by (simp add: trim_def isWhiteSpace_def)
  then show ?thesis
    by (simp add: reasonOf_def truthy_def split: option.splits)
qed

text \<open>
  C10. When the endpoint answers with \<open>success = true\<close>, the request named a student, a
  row with that identifier exists afterwards, and the schools are untouched. If the
  action is \<open>approve\<close>, the answer is status 200 with \<open>status = approved\<close>, and every row of
  that student is approved, carries the time of the call, and has no rejection reason. If
  the action is \<open>reject\<close>, the answer is status 200 with \<open>status = rejected\<close>, and every
  row of that student is not approved and carries as its rejection reason the trimmed
  reason of the request, or \<open>No reason provided\<close> when the request has no reason or an
  empty one.
\<close>

theorem handler_success_effect:
  assumes "handler be now req db = (resp, db')"
    and "req_body req = JsonObject b"
    and "json resp = Some body" and "success body"
  shows "\<exists>stu. studentId b = Some stu \<and> schools db' = schools db \<and>
           (\<exists>r \<in> set (students db'). student_pk r = stu) \<and>
           (action b = Some ''approve'' \<longrightarrow>
              resp = \<lparr>http_status = 200,
                      json = Some \<lparr>success = True, status = Some ''approved'', error = None\<rparr>\<rparr> \<and>
              students db' = approveUpdate now stu (students db) \<and>
              (\<forall>r \<in> set (students db'). student_pk r = stu \<longrightarrow>
                 is_approved r \<and> approved_at r = Some now \<and> rejection_reason r = None)) \<and>
           (action b = Some ''reject'' \<longrightarrow>
              resp = \<lparr>http_status = 200,
                      json = Some \<lparr>success = True, status = Some ''rejected'', error = None\<rparr>\<rparr> \<and>
              students db' = rejectUpdate (reasonOf b) stu (students db) \<and>
              reasonOf b =
                (case rejectionReason b of
                   None \<Rightarrow> ''No reason provided''
                 | Some t \<Rightarrow> if t = '''' then ''No reason provided'' else trim t) \<and>
              (\<forall>r \<in> set (students db'). student_pk r = stu \<longrightarrow>
                 \<not> is_approved r \<and> rejection_reason r = Some (reasonOf b)))"
proof -
  from handler_success_cases[OF assms]
  obtain act sid pw stu student where
    f: "requiredFields b = Some (act, sid, pw, stu)"
    and one: "studentsWithId stu db = [student]"
    and eff: "if act = ''approve''
              then resp = succeeded ''approved'' \<and>
                   db' = db\<lparr>students := approveUpdate now stu (students db)\<rparr>
              else resp = succeeded ''rejected'' \<and>
                   db' = db\<lparr>students := rejectUpdate (reasonOf b) stu (students db)\<rparr>"
    by blast
  from requiredFields_Some[OF f] have act: "action b = Some act" and stu: "studentId b = Some stu"
    by simp_all
  from studentsWithId_member[OF one] have mem: "student \<in> set (students db)"
    and pk: "student_pk student = stu" by simp_all
  show ?thesis
  proof (cases "act = ''approve''")
    case True
    with eff have r: "resp = succeeded ''approved''"
      and d: "db' = db\<lparr>students := approveUpdate now stu (students db)\<rparr>" by simp_all
    have st: "students db' = approveUpdate now stu (students db)" by (simp add: d)
    have sc: "schools db' = schools db" by (simp add: d)
    have ex: "\<exists>r \<in> set (students db'). student_pk r = stu"
    proof -
      have "stu \<in> set (map student_pk (students db))" using mem pk by force
      then have "stu \<in> set (map student_pk (approveUpdate now stu (students db)))"
        by (simp only: approveUpdate_pk)
      with st show ?thesis by (simp only: pk_member)
    qed
    have all: "\<forall>r \<in> set (students db'). student_pk r = stu \<longrightarrow>
                 is_approved r \<and> approved_at r = Some now \<and> rejection_reason r = None"
      unfolding st using approveUpdate_rows by blast
    have notReject: "action b \<noteq> Some ''reject''" using act True by simp
    have resp: "resp = \<lparr>http_status = 200,
                      json = Some \<lparr>success = True, status = Some ''approved'', error = None\<rparr>\<rparr>"
      using r by (simp add: succeeded_def)
    from stu sc ex resp st all notReject show ?thesis by blast
  next
    case False
    with eff have r: "resp = succeeded ''rejected''"
      and d: "db' = db\<lparr>students := rejectUpdate (reasonOf b) stu (students db)\<rparr>" by simp_all
    have st: "students db' = rejectUpdate (reasonOf b) stu (students db)" by (simp add: d)
    have sc: "schools db' = schools db" by (simp add: d)
    have ex: "\<exists>r \<in> set (students db'). student_pk r = stu"
    proof -
      have "stu \<in> set (map student_pk (students db))" using mem pk by force
      then have "stu \<in> set (map student_pk (rejectUpdate (reasonOf b) stu (students db)))"
        by (simp only: rejectUpdate_pk)
      with st show ?thesis by (simp only: pk_member)
    qed
    have all: "\<forall>r \<in> set (students db'). student_pk r = stu \<longrightarrow>
                 \<not> is_approved r \<and> rejection_reason r = Some (reasonOf b)"
      unfolding st using rejectUpdate_rows by blast
    have notApprove: "action b \<noteq> Some ''approve''" using act False by simp
    have resp: "resp = \<lparr>http_status = 200,
                      json = Some \<lparr>success = True, status = Some ''rejected'', error = None\<rparr>\<rparr>"
      using r by (simp add: succeeded_def)
    from stu sc ex resp st all notApprove reasonOf_cases[of b] show ?thesis by blast
  qed
qed

lemma sample_approve:
  "handler sampleBackend ''2025-01-01T00:00:00.000Z''
     (post (approvalRequest ''approve'' ''secret'' (Some ''st-1'') None)) sampleDatabase =
   (succeeded ''approved'',
    sampleDatabase\<lparr>students :=
      approveUpdate ''2025-01-01T00:00:00.000Z'' ''st-1'' (students sampleDatabase)\<rparr>)"
  by (simp add: handler_def requiredFields_def truthy_def maybeSingle_def schoolsMatching_def
      studentsWithId_def sample_defs)

lemma sample_reject:
  "handler sampleBackend ''2025-01-01T00:00:00.000Z''
     (post (approvalRequest ''reject'' ''secret'' (Some ''st-2'') (Some ''  no documents ''))) sampleDatabase =
   (succeeded ''rejected'',
    sampleDatabase\<lparr>students :=
      rejectUpdate ''no documents'' ''st-2'' (students sampleDatabase)\<rparr>)"
  by (simp add: handler_def requiredFields_def truthy_def maybeSingle_def schoolsMatching_def
      studentsWithId_def reasonOf_def trim_def isWhiteSpace_def sample_defs)

theorem handler_success_effect_witness:
  "(\<exists>r \<in> set (students (snd (handler sampleBackend ''2025-01-01T00:00:00.000Z''
        (post (approvalRequest ''approve'' ''secret'' (Some ''st-1'') None)) sampleDatabase))).
      student_pk r = ''st-1'' \<and> is_approved r \<and>
      approved_at r = Some ''2025-01-01T00:00:00.000Z'' \<and> rejection_reason r = None) \<and>
   (\<exists>r \<in> set (students (snd (handler sampleBackend ''2025-01-01T00:00:00.000Z''
        (post (approvalRequest ''reject'' ''secret'' (Some ''st-2'') (Some ''  no documents '')))
        sampleDatabase))).
      student_pk r = ''st-2'' \<and> \<not> is_approved r \<and>
      rejection_reason r = Some ''no documents'')"
proof -
  let ?now = "''2025-01-01T00:00:00.000Z''"
  let ?b1 = "approvalRequest ''approve'' ''secret'' (Some ''st-1'') None"
  let ?db1 = "sampleDatabase\<lparr>students := approveUpdate ?now ''st-1'' (students sampleDatabase)\<rparr>"
  have b1: "req_body (post ?b1) = JsonObject ?b1" by (simp add: post_def)
  have j1: "json (succeeded ''approved'')
              = Some \<lparr>success = True, status = Some ''approved'', error = None\<rparr>"
    by (simp add: succeeded_def)
  have s1: "success \<lparr>success = True, status = Some ''approved'', error = None\<rparr>" by simp
  have a1: "action ?b1 = Some ''approve''" and i1: "studentId ?b1 = Some ''st-1''"
    by (simp_all add: approvalRequest_def)
  from handler_success_effect[OF sample_approve b1 j1 s1]
  obtain stu where stu: "studentId ?b1 = Some stu"
    and ex: "\<exists>r \<in> set (students ?db1). student_pk r = stu"
    and ap: "action ?b1 = Some ''approve'' \<longrightarrow>
       (\<forall>r \<in> set (students ?db1). student_pk r = stu \<longrightarrow>
          is_approved r \<and> approved_at r = Some ?now \<and> rejection_reason r = None)"
    by blast
  from stu i1 have st1: "stu = ''st-1''" by simp
  from ex obtain r where r: "r \<in> set (students ?db1)" "student_pk r = stu" by blast
  from ap a1 r have "is_approved r \<and> approved_at r = Some ?now \<and> rejection_reason r = None"
    by blast
  with r st1 have A: "\<exists>r \<in> set (students ?db1).
      student_pk r = ''st-1'' \<and> is_approved r \<and> approved_at r = Some ?now \<and>
      rejection_reason r = None"
    by blast
  let ?b2 = "approvalRequest ''reject'' ''secret'' (Some ''st-2'') (Some ''  no documents '')"
  let ?db2 = "sampleDatabase\<lparr>students := rejectUpdate ''no documents'' ''st-2'' (students sampleDatabase)\<rparr>"
  have b2: "req_body (post ?b2) = JsonObject ?b2" by (simp add: post_def)
  have j2: "json (succeeded ''rejected'')
              = Some \<lparr>success = True, status = Some ''rejected'', error = None\<rparr>"
    by (simp add: succeeded_def)
  have s2: "success \<lparr>success = True, status = Some ''rejected'', error = None\<rparr>" by simp
  have a2: "action ?b2 = Some ''reject''" and i2: "studentId ?b2 = Some ''st-2''"
    by (simp_all add: approvalRequest_def)
  have r2: "reasonOf ?b2 = ''no documents''"
    by (simp add: reasonOf_def truthy_def approvalRequest_def trim_def isWhiteSpace_def)
  from handler_success_effect[OF sample_reject b2 j2 s2]
  obtain stu' where stu': "studentId ?b2 = Some stu'"
    and ex': "\<exists>r \<in> set (students ?db2). student_pk r = stu'"
    and rj: "action ?b2 = Some ''reject'' \<longrightarrow>
       (\<forall>r \<in> set (students ?db2). student_pk r = stu' \<longrightarrow>
          \<not> is_approved r \<and> rejection_reason r = Some (reasonOf ?b2))"
    by blast
  from stu' i2 have st2: "stu' = ''st-2''" by simp
  from ex' obtain r' where r': "r' \<in> set (students ?db2)" "student_pk r' = stu'" by blast
  from rj a2 r' have "\<not> is_approved r' \<and> rejection_reason r' = Some (reasonOf ?b2)"
    by blast
  with r' st2 r2 have B: "\<exists>r \<in> set (students ?db2).
      student_pk r = ''st-2'' \<and> \<not> is_approved r \<and> rejection_reason r = Some ''no documents''"
    by auto
  from A B show ?thesis by (simp only: sample_approve sample_reject snd_conv)
qed

end
